theory Spec2Isabelle
  imports Complex_Main
begin

section \<open>Data model\<close>

text \<open>
  The module \<^verbatim>\<open>src/mics/MBAR.py\<close> defines the class \<^verbatim>\<open>MBAR\<close> with two methods,
  \<^verbatim>\<open>__initialize__\<close> and \<^verbatim>\<open>__reweight__\<close>. Both work on numpy arrays of float64.
  Arrays are modelled as lists (one-dimensional) and lists of rows (two-dimensional)
  of real numbers: the arithmetic of the model is exact, rounding is not modelled.
  A two-dimensional array with no row does not record its number of columns.
\<close>

type_synonym vec = "real list"
type_synonym mat = "real list list"

text \<open>
  Exceptions are values. \<open>ValueError\<close> and \<open>IndexError\<close> are what numpy raises on
  a shape mismatch and on an index out of range, \<open>AttributeError\<close> is what Python
  raises when \<^verbatim>\<open>self.MBAR\<close> is read before \<^verbatim>\<open>__initialize__\<close> has set it, and
  \<open>EstimatorError\<close> stands for any exception raised inside the pymbar library,
  carrying its name. \<open>DimensionMismatchError\<close> is the exception that the specification
  names for an observable of the wrong length; no statement of the module raises it.
\<close>

datatype error =
  ValueError | IndexError | AttributeError | EstimatorError string | DimensionMismatchError

definition bindE :: "error + 'a \<Rightarrow> ('a \<Rightarrow> error + 'b) \<Rightarrow> error + 'b" where
  "bindE m k = (case m of Inl e \<Rightarrow> Inl e | Inr x \<Rightarrow> k x)"

fun mapE :: "('a \<Rightarrow> error + 'b) \<Rightarrow> 'a list \<Rightarrow> error + 'b list" where
  "mapE g [] = Inr []"
| "mapE g (x # xs) = bindE (g x) (\<lambda>y. bindE (mapE g xs) (\<lambda>ys. Inr (y # ys)))"

subsection \<open>The numpy operations the module uses\<close>

definition ncols :: "'a list list \<Rightarrow> nat" where
  "ncols A = (case A of [] \<Rightarrow> 0 | r # _ \<Rightarrow> length r)"

text \<open>Python indexing \<^verbatim>\<open>xs[i]\<close>: a negative index counts from the end.\<close>

definition getitem :: "'a list \<Rightarrow> int \<Rightarrow> error + 'a" where
  "getitem xs i =
     (let l = int (length xs); j = (if i < 0 then l + i else i)
      in if 0 \<le> j \<and> j < l then Inr (xs ! nat j) else Inl IndexError)"

text \<open>\<^verbatim>\<open>A[i, j]\<close> on a two-dimensional array.\<close>

definition getitem2 :: "'a list list \<Rightarrow> int \<Rightarrow> int \<Rightarrow> error + 'a" where
  "getitem2 A i j = bindE (getitem A i) (\<lambda>r. getitem r j)"

text \<open>\<^verbatim>\<open>A[i, j] = v\<close> with indices that are not negative.\<close>

definition setitem2 :: "mat \<Rightarrow> nat \<Rightarrow> nat \<Rightarrow> real \<Rightarrow> error + mat" where
  "setitem2 A i j v =
     (if i < length A \<and> j < length (A ! i) then Inr (A[i := (A ! i)[j := v]])
      else Inl IndexError)"

text \<open>
  \<^verbatim>\<open>np.hstack\<close> of two-dimensional blocks joins them along the columns; the blocks
  must agree on the number of rows, and there must be at least one block.
\<close>

definition hstack :: "'a list list list \<Rightarrow> error + 'a list list" where
  "hstack bs =
     (case bs of
        [] \<Rightarrow> Inl ValueError
      | b # rest \<Rightarrow>
          if \<forall>c \<in> set rest. length c = length b
          then Inr (map (\<lambda>r. concat (map (\<lambda>c. c ! r) bs)) [0..<length b])
          else Inl ValueError)"

text \<open>\<^verbatim>\<open>np.hstack\<close> of one-dimensional arrays is their concatenation.\<close>

definition hstack1 :: "'a list list \<Rightarrow> error + 'a list" where
  "hstack1 vs = (if vs = [] then Inl ValueError else Inr (concat vs))"

text \<open>\<^verbatim>\<open>np.stack([a, b])\<close> of two one-dimensional arrays: they must have one length.\<close>

definition stack2 :: "vec \<Rightarrow> vec \<Rightarrow> error + mat" where
  "stack2 a b = (if length a = length b then Inr [a, b] else Inl ValueError)"

text \<open>
  Elementwise arithmetic on one-dimensional arrays with numpy's broadcasting: equal
  lengths pair up, an array of length one is repeated, anything else is refused.
\<close>

definition broadcast2 :: "(real \<Rightarrow> real \<Rightarrow> real) \<Rightarrow> vec \<Rightarrow> vec \<Rightarrow> error + vec" where
  "broadcast2 g xs ys =
     (if length xs = length ys then Inr (map2 g xs ys)
      else if length xs = 1 then Inr (map (g (hd xs)) ys)
      else if length ys = 1 then Inr (map (\<lambda>x. g x (hd ys)) xs)
      else Inl ValueError)"

text \<open>
  A column \<^verbatim>\<open>c[:, np.newaxis]\<close> minus a two-dimensional array: entry \<open>(k, s)\<close> is
  \<open>c[k] - A[k][s]\<close>; the rows broadcast as above.
\<close>

definition sub_col :: "vec \<Rightarrow> mat \<Rightarrow> error + mat" where
  "sub_col c A =
     (if length c = length A then Inr (map2 (\<lambda>a r. map (\<lambda>x. a - x) r) c A)
      else if length c = 1 then Inr (map (\<lambda>r. map (\<lambda>x. hd c - x) r) A)
      else if length A = 1 then Inr (map (\<lambda>a. map (\<lambda>x. a - x) (hd A)) c)
      else Inl ValueError)"

text \<open>A two-dimensional array plus a one-dimensional one: the latter is added to every row.\<close>

definition add_row :: "mat \<Rightarrow> vec \<Rightarrow> error + mat" where
  "add_row A v = mapE (\<lambda>r. broadcast2 (+) r v) A"

text \<open>A one-dimensional array times a two-dimensional one, as in \<^verbatim>\<open>N_k * M\<close>.\<close>

definition mul_row :: "vec \<Rightarrow> mat \<Rightarrow> error + mat" where
  "mul_row v A = mapE (\<lambda>r. broadcast2 (*) v r) A"

definition transpose_m :: "mat \<Rightarrow> mat" where
  "transpose_m A = map (\<lambda>j. map (\<lambda>r. r ! j) A) [0..<ncols A]"

text \<open>\<^verbatim>\<open>np.matmul\<close> of two-dimensional arrays.\<close>

definition matmul :: "mat \<Rightarrow> mat \<Rightarrow> error + mat" where
  "matmul A B =
     (if \<forall>r \<in> set A. length r = length B
      then Inr (map (\<lambda>r. map (\<lambda>j. \<Sum>k\<leftarrow>[0..<length B]. r ! k * B ! k ! j) [0..<ncols B]) A)
      else Inl ValueError)"

definition zeros :: "nat \<Rightarrow> nat \<Rightarrow> mat" where
  "zeros r c = replicate r (replicate c 0)"

text \<open>
  Modelled from the spec: \<^verbatim>\<open>mics.utils.logsumexp\<close> is imported by the module and its
  source is not part of \<^verbatim>\<open>src/\<close>. The specification describes it as the evaluation
  of \<open>log (\<Sum> exp x\<^sub>i)\<close>, and uses it on the array \<open>flnpi - u\<close> as a reduction over the
  states, one value per sample (per column).
\<close>

definition logsumexp :: "mat \<Rightarrow> vec" where
  "logsumexp x = map (\<lambda>s. ln (\<Sum>r\<leftarrow>x. exp (r ! s))) [0..<ncols x]"

subsection \<open>The objects\<close>

text \<open>
  The state map handed to the estimator: \<^verbatim>\<open>np.arange(2)\<close> is one-dimensional, the
  \<^verbatim>\<open>np.block\<close> is two-dimensional.
\<close>

datatype state_map = Map1 "nat list" | Map2 "nat list list"

text \<open>The dictionary returned by \<^verbatim>\<open>computeExpectationsInner\<close>, read at four keys.\<close>

record results =
  res_f :: vec
  res_observables :: vec
  res_Amin :: vec
  res_Theta :: mat

text \<open>
  The \<^verbatim>\<open>pymbar.mbar.MBAR\<close> object. pymbar is a third-party library: what the module
  reads from the object are fields, and the two methods it calls are the object's own
  functions.
\<close>

record mbar =
  f_k :: vec
  Log_W_nk :: mat
  W_nk :: mat
  N_k :: "nat list"
  computeAsymptoticCovarianceMatrix :: "mat \<Rightarrow> nat list \<Rightarrow> error + mat"
  computeExpectationsInner :: "mat \<Rightarrow> mat \<Rightarrow> state_map \<Rightarrow> error + results"

text \<open>
  The constructor \<^verbatim>\<open>mbar.MBAR(u_kn, N_k, relative_tolerance, initial_f_k, verbose)\<close>,
  a parameter of the model.
\<close>

type_synonym mbar_MBAR = "mat \<Rightarrow> nat list \<Rightarrow> real \<Rightarrow> vec \<Rightarrow> bool \<Rightarrow> error + mbar"

text \<open>
  The mixture: \<open>m\<close> states, \<open>n\<close> the sample counts, \<open>u\<close> one block per state holding
  the reduced potentials of that state's samples under every state (one row per state),
  and the fields the method writes.
\<close>

record mixture =
  mix_m :: nat
  mix_n :: "nat list"
  mix_u :: "mat list"
  mix_f :: vec
  mix_u0 :: "vec list"
  mix_Theta :: mat
  mix_Overlap :: mat

text \<open>The \<^verbatim>\<open>MBAR\<close> object of the module itself (\<^verbatim>\<open>self\<close>).\<close>

record mbar_self =
  self_tol :: real
  self_MBAR :: "mbar option"
  self_P :: "mat list"

section \<open>\<^verbatim>\<open>MBAR.__initialize__\<close>\<close>

text \<open>
  \<^verbatim>\<open>flnpi = (mixture.f + np.log(n/sum(n)))[:, np.newaxis]\<close>. For a state without
  samples the ratio is zero and numpy's \<^verbatim>\<open>log\<close> gives \<open>-inf\<close>, so that the state's row
  of \<^verbatim>\<open>self.P\<close> is zero; the reals have no such value, and the entries that the model
  gives for such a state are not the code's. The sum of a column of \<^verbatim>\<open>self.P\<close> over
  the states is the same in both when the pool has a sample.
\<close>

definition flnpi_of :: "vec \<Rightarrow> nat list \<Rightarrow> error + vec" where
  "flnpi_of fs ns = broadcast2 (+) fs (map (\<lambda>k. ln (real k / real (sum_list ns))) ns)"

text \<open>\<^verbatim>\<open>mixture.u0 = [-logsumexp(flnpi - u) for u in mixture.u]\<close>\<close>

definition u0_of :: "vec \<Rightarrow> mat list \<Rightarrow> error + vec list" where
  "u0_of flnpi us =
     mapE (\<lambda>x. bindE (sub_col flnpi x) (\<lambda>d. Inr (map uminus (logsumexp d)))) us"

text \<open>\<^verbatim>\<open>self.P = [np.exp(flnpi - mixture.u[i] + mixture.u0[i]) for i in range(m)]\<close>\<close>

definition P_of :: "vec \<Rightarrow> mat list \<Rightarrow> vec list \<Rightarrow> nat \<Rightarrow> error + mat list" where
  "P_of flnpi us u0s m =
     mapE (\<lambda>i. bindE (getitem us (int i)) (\<lambda>x.
                bindE (sub_col flnpi x) (\<lambda>d.
                bindE (getitem u0s (int i)) (\<lambda>v.
                bindE (add_row d v) (\<lambda>e. Inr (map (map exp) e))))))
          [0..<m]"

text \<open>\<^verbatim>\<open>mixture.Overlap = mb.N_k*np.matmul(mb.W_nk.T, mb.W_nk)\<close>\<close>

definition Overlap_of :: "nat list \<Rightarrow> mat \<Rightarrow> error + mat" where
  "Overlap_of ns W = bindE (matmul (transpose_m W) W) (\<lambda>M. mul_row (map real ns) M)"

text \<open>
  The method, with the library's constructor and the flag \<^verbatim>\<open>mics.verbose\<close> as
  parameters. It returns the mixture and the object as it leaves them; the \<^verbatim>\<open>info\<close>
  calls only print.
\<close>

definition initialize ::
  "mbar_MBAR \<Rightarrow> bool \<Rightarrow> mbar_self \<Rightarrow> mixture \<Rightarrow> error + (mixture \<times> mbar_self)" where
  "initialize mbar_new verbose self mixture =
     (let m = mix_m mixture; n = mix_n mixture in
      bindE (hstack (mix_u mixture)) (\<lambda>u_kn.
      bindE (mbar_new u_kn n (self_tol self) (mix_f mixture) verbose) (\<lambda>mb.
      bindE (flnpi_of (f_k mb) n) (\<lambda>flnpi.
      bindE (u0_of flnpi (mix_u mixture)) (\<lambda>u0s.
      bindE (P_of flnpi (mix_u mixture) u0s m) (\<lambda>Ps.
      bindE (computeAsymptoticCovarianceMatrix mb (map (map exp) (Log_W_nk mb)) (N_k mb)) (\<lambda>Th.
      bindE (Overlap_of (N_k mb) (W_nk mb)) (\<lambda>Ov.
      Inr (mixture\<lparr>mix_f := f_k mb, mix_u0 := u0s, mix_Theta := Th, mix_Overlap := Ov\<rparr>,
           self\<lparr>self_MBAR := Some mb, self_P := Ps\<rparr>)))))))))"

section \<open>\<^verbatim>\<open>MBAR.__reweight__\<close>\<close>

text \<open>
  \<^verbatim>\<open>smap = np.arange(2) if n == 0 else np.block([[np.zeros(n, np.int32), 1],
  [np.arange(n), 0]])\<close>
\<close>

definition smap_of :: "nat \<Rightarrow> state_map" where
  "smap_of n = (if n = 0 then Map1 [0..<2] else Map2 [replicate n 0 @ [1], [0..<n] @ [0]])"

text \<open>
  \<^verbatim>\<open>u_ln = np.stack([np.hstack(u).flatten(), np.hstack(x[ref, :] for x in mixture.u)])\<close>.
  The second \<^verbatim>\<open>np.hstack\<close> is given a generator, which is read here as the sequence of
  its items, as the numpy versions that accept a generator read it.
\<close>

definition u_ln_of :: "mixture \<Rightarrow> mat list \<Rightarrow> int \<Rightarrow> error + mat" where
  "u_ln_of mixture u ref =
     bindE (hstack u) (\<lambda>hu.
     bindE (mapE (\<lambda>x. getitem x ref) (mix_u mixture)) (\<lambda>rows.
     bindE (hstack1 rows) (\<lambda>refrow.
     stack2 (concat hu) refrow)))"

text \<open>
  The loop \<^verbatim>\<open>for i in range(n): G[i, i+1] = delta[i]; G[n+1+i, i+1] = -delta[i]\<close>,
  over the list of the indices still to visit.
\<close>

fun fill_G :: "nat \<Rightarrow> vec \<Rightarrow> nat list \<Rightarrow> mat \<Rightarrow> error + mat" where
  "fill_G n delta [] G = Inr G"
| "fill_G n delta (i # is) G =
     bindE (getitem delta (int i)) (\<lambda>d.
     bindE (setitem2 G i (i + 1) d) (\<lambda>G1.
     bindE (setitem2 G1 (n + 1 + i) (i + 1) (- d)) (\<lambda>G2.
     fill_G n delta is G2)))"

text \<open>
  \<^verbatim>\<open>multi_dot([G.T, Theta, G])\<close>: for three factors numpy compares the costs of the two
  bracketings, which are equal for these shapes, and then computes
  \<^verbatim>\<open>dot(G.T, dot(Theta, G))\<close>.
\<close>

definition multi_dot3 :: "mat \<Rightarrow> mat \<Rightarrow> mat \<Rightarrow> error + mat" where
  "multi_dot3 A B C = bindE (matmul B C) (\<lambda>BC. matmul A BC)"

text \<open>
  The method. \<open>u\<close> and \<open>y\<close> are lists of two-dimensional blocks, one per sample
  block of the mixture: a block of \<open>u\<close> is the row of the potentials of the target
  state at the samples of the block, the rows of a block of \<open>y\<close> are the properties,
  and a query with no property has blocks with no row. \<open>ref\<close> is a Python index.
\<close>

definition reweight ::
  "mbar_self \<Rightarrow> mixture \<Rightarrow> mat list \<Rightarrow> mat list \<Rightarrow> int \<Rightarrow> error + (vec \<times> mat)" where
  "reweight self mixture u y ref =
     bindE (u_ln_of mixture u ref) (\<lambda>u_ln.
     bindE (hstack y) (\<lambda>A_n.
     let n = length A_n; smap = smap_of n in
     bindE (case self_MBAR self of
              None \<Rightarrow> Inl AttributeError
            | Some mb \<Rightarrow> computeExpectationsInner mb A_n u_ln smap) (\<lambda>results.
     let Theta = res_Theta results in
     if n = 0 then
       bindE (getitem (res_f results) 0) (\<lambda>f0.
       bindE (getitem (res_f results) 1) (\<lambda>f1.
       bindE (getitem2 Theta 0 0) (\<lambda>t00.
       bindE (getitem2 Theta 1 1) (\<lambda>t11.
       bindE (getitem2 Theta 0 1) (\<lambda>t01.
       Inr ([f0 - f1], [[t00 + t11 - 2 * t01]]))))))
     else
       bindE (getitem (res_f results) 0) (\<lambda>f0.
       bindE (getitem (res_f results) (int n)) (\<lambda>fn.
       let fu = [f0 - fn]; yu = take n (res_observables results) in
       bindE (setitem2 (zeros (2 * (n + 1)) (n + 1)) (n + 1) 0 (- 1)) (\<lambda>G1.
       bindE (setitem2 G1 (2 * n + 1) 0 1) (\<lambda>G2.
       bindE (broadcast2 (-) yu (take n (res_Amin results))) (\<lambda>delta.
       bindE (fill_G n delta [0..<n] G2) (\<lambda>G.
       bindE (multi_dot3 (transpose_m G) Theta G) (\<lambda>cov.
       Inr (fu @ yu, cov)))))))))))"

section \<open>The weights as the specification states them\<close>

text \<open>
  The specification defines the weight of sample \<open>n\<close> in state \<open>k\<close> as
  \<open>exp (f\<^sub>k - U[k][n] - c\<^sub>n)\<close> with \<open>c\<^sub>n = logsumexp\<^sub>j (log N\<^sub>j + f\<^sub>j - U[j][n])\<close>. This
  definition follows those words. In the code the weight matrix is \<^verbatim>\<open>mb.W_nk\<close>, a field
  of the estimator object that the library fills; the definition serves to check that the
  estimator object of the concrete mixture below holds these weights.
\<close>

definition spec_weight :: "vec \<Rightarrow> nat list \<Rightarrow> mat \<Rightarrow> nat \<Rightarrow> nat \<Rightarrow> real" where
  "spec_weight fs ns U k s =
     exp (fs ! k - U ! k ! s - ln (\<Sum>j\<leftarrow>[0..<length ns]. exp (ln (real (ns ! j)) + fs ! j - U ! j ! s)))"

section \<open>The gradient as the specification states it\<close>

text \<open>
  The specification gives the Jacobian of the \<open>n + 1\<close> functions with respect to the
  \<open>2 (n + 1)\<close> components of \<open>x\<close>: in the column of the free-energy difference two
  entries are \<open>-1\<close> and \<open>1\<close> (the comment of the code places them in the rows
  \<open>n + 1\<close> and \<open>2 n + 1\<close>), in the column of observable \<open>i\<close> the entry of row
  \<open>i\<close> is \<open>y\<^sub>i - Amin\<^sub>i\<close> and the entry of row \<open>n + 1 + i\<close> is its negative, and
  every other entry is zero. This definition follows those words, with the observables
  counted from zero and observable \<open>i\<close> in column \<open>i + 1\<close>.
\<close>

definition jacobian :: "nat \<Rightarrow> vec \<Rightarrow> vec \<Rightarrow> nat \<Rightarrow> nat \<Rightarrow> real" where
  "jacobian n yu amin r c =
     (if c = 0 then (if r = n + 1 then - 1 else if r = 2 * n + 1 then 1 else 0)
      else if r = c - 1 then yu ! (c - 1) - amin ! (c - 1)
      else if r = n + c then - (yu ! (c - 1) - amin ! (c - 1))
      else 0)"

text \<open>
  The shapes of the estimator's results that the indexing of \<^verbatim>\<open>__reweight__\<close> needs
  for \<open>n\<close> observables: two free energies and a covariance of at least two rows and
  columns when \<open>n = 0\<close>; otherwise \<open>n + 1\<close> free energies, \<open>n\<close> observables and
  minima, and a square covariance of size \<open>2 (n + 1)\<close>.
\<close>

definition well_shaped :: "nat \<Rightarrow> results \<Rightarrow> bool" where
  "well_shaped n res =
     (if n = 0
      then 2 \<le> length (res_f res) \<and> 2 \<le> length (res_Theta res) \<and>
           2 \<le> length (res_Theta res ! 0) \<and> 2 \<le> length (res_Theta res ! 1)
      else n < length (res_f res) \<and> n \<le> length (res_observables res) \<and>
           n \<le> length (res_Amin res) \<and> length (res_Theta res) = 2 * (n + 1) \<and>
           (\<forall>row \<in> set (res_Theta res). length row = 2 * (n + 1)))"

section \<open>A concrete mixture\<close>

text \<open>
  Two states with one and two samples, all reduced potentials zero. The free energies
  \<open>[0, 0]\<close> solve the MBAR equations for it, and every weight
  \<open>exp (f\<^sub>k - U[k][n] - c\<^sub>n)\<close> is \<open>1/3\<close>: this is what the estimator object of the
  example holds. Its covariance routine returns a fixed matrix, and its
  \<^verbatim>\<open>computeExpectationsInner\<close> returns fixed results for observables that have one value
  per pooled sample and raises for observables of another length.
\<close>

definition ex_inner :: "mat \<Rightarrow> mat \<Rightarrow> state_map \<Rightarrow> error + results" where
  "ex_inner A_n u_ln smap =
     (if A_n \<noteq> [] \<and> ncols A_n \<noteq> ncols u_ln then Inl (EstimatorError ''ValueError'')
      else case smap of
        Map1 _ \<Rightarrow> Inr \<lparr>res_f = [0, 0], res_observables = [], res_Amin = [],
                       res_Theta = [[0, 0], [0, 0]]\<rparr>
      | Map2 _ \<Rightarrow> Inr \<lparr>res_f = [0, 0], res_observables = [2, 2], res_Amin = [1, 1],
                       res_Theta = [[2, 1, 0, 0], [1, 2, 0, 0], [0, 0, 2, 1], [0, 0, 1, 2]]\<rparr>)"

definition ex_mb :: mbar where
  "ex_mb = \<lparr>f_k = [0, 0],
            Log_W_nk = replicate 3 [- ln 3, - ln 3],
            W_nk = replicate 3 [1/3, 1/3],
            N_k = [1, 2],
            computeAsymptoticCovarianceMatrix = (\<lambda>W ns. Inr [[0, 0], [0, 0]]),
            computeExpectationsInner = ex_inner\<rparr>"

definition ex_new :: mbar_MBAR where
  "ex_new u_kn ns tol f0 verbose = Inr ex_mb"

definition ex_mixture :: mixture where
  "ex_mixture = \<lparr>mix_m = 2, mix_n = [1, 2],
                 mix_u = [[[0], [0]], [[0, 0], [0, 0]]],
                 mix_f = [0, 0], mix_u0 = [], mix_Theta = [], mix_Overlap = []\<rparr>"

definition ex_self :: mbar_self where
  "ex_self = \<lparr>self_tol = 1 / 10 ^ 12, self_MBAR = None, self_P = []\<rparr>"

text \<open>
  Queries on the concrete mixture: the potential of the target state (that of the first
  state), no observable, one observable, and one observable whose first block has two
  values for the one sample of the block.
\<close>

definition ex_u :: "mat list" where
  "ex_u = [[[0]], [[0, 0]]]"

definition ex_y0 :: "mat list" where
  "ex_y0 = [[], []]"

definition ex_y1 :: "mat list" where
  "ex_y1 = [[[1]], [[2, 3]]]"

definition ex_y_long :: "mat list" where
  "ex_y_long = [[[1, 2]], [[2, 3]]]"

definition ex_fitted :: mixture where
  "ex_fitted = ex_mixture\<lparr>mix_f := [0, 0], mix_u0 := [[0], [0, 0]],
                 mix_Theta := [[0, 0], [0, 0]], mix_Overlap := [[1/3, 2/3], [1/3, 2/3]]\<rparr>"

definition ex_self_fitted :: mbar_self where
  "ex_self_fitted = ex_self\<lparr>self_MBAR := Some ex_mb,
                      self_P := [[[1/3], [2/3]], [[1/3, 1/3], [2/3, 2/3]]]\<rparr>"

section \<open>Properties\<close>

lemma bindE_Inr [simp]: "bindE (Inr x) k = k x"
  by (simp add: bindE_def)

lemma bindE_Inl [simp]: "bindE (Inl e) k = Inl e"
  by (simp add: bindE_def)

lemma bindE_eq_Inr: "bindE m k = Inr y \<longleftrightarrow> (\<exists>x. m = Inr x \<and> k x = Inr y)"
  by (cases m) simp_all

lemma mapE_eq_Inr:
  "mapE g xs = Inr ys \<longleftrightarrow> length ys = length xs \<and> (\<forall>i<length xs. g (xs ! i) = Inr (ys ! i))"
proof (induction xs arbitrary: ys)
  case Nil
  then show ?case by auto
next
  case (Cons x xs)
  show ?case
  proof (cases ys)
    case Nil
    then show ?thesis by (auto simp: bindE_eq_Inr)
  next
    case (Cons z zs)
    then show ?thesis
      by (auto simp: bindE_eq_Inr Cons.IH nth_Cons split: nat.splits)
  qed
qed

lemma mapE_all_Inr:
  assumes "\<And>x. x \<in> set xs \<Longrightarrow> g x = Inr (h x)"
  shows "mapE g xs = Inr (map h xs)"
  using assms by (simp add: mapE_eq_Inr)

lemma ncols_rect:
  assumes "A \<noteq> []" and "\<forall>r\<in>set A. length r = c"
  shows "ncols A = c"
  using assms by (cases A) (simp_all add: ncols_def)

lemma sum_list_upt_sum: "(\<Sum>k\<leftarrow>[0..<l]. g k) = (\<Sum>k<l. g k)"
  by (simp add: interv_sum_list_conv_sum_set_nat atLeast0LessThan)

lemma Overlap_of_entries:
  assumes W: "W \<noteq> []" "\<forall>r\<in>set W. length r = length ns"
  shows "\<exists>Ov. Overlap_of ns W = Inr Ov \<and> length Ov = length ns \<and>
     (\<forall>i<length ns. length (Ov ! i) = length ns \<and>
        (\<forall>j<length ns. Ov ! i ! j = real (ns ! j) * (\<Sum>s<length W. W ! s ! i * W ! s ! j)))"
proof -
  let ?K = "length ns"
  let ?M = "map (\<lambda>r. map (\<lambda>j. \<Sum>k\<leftarrow>[0..<length W]. r ! k * W ! k ! j) [0..<?K]) (transpose_m W)"
  have nc: "ncols W = ?K" using W by (rule ncols_rect)
  have mm: "matmul (transpose_m W) W = Inr ?M"
    by (simp add: matmul_def transpose_m_def nc)
  have rows: "\<And>r. r \<in> set ?M \<Longrightarrow> broadcast2 (*) (map real ns) r = Inr (map2 (*) (map real ns) r)"
    by (auto simp: broadcast2_def)
  have ov: "Overlap_of ns W = Inr (map (\<lambda>r. map2 (*) (map real ns) r) ?M)"
    unfolding Overlap_of_def mm bindE_Inr mul_row_def
    by (rule mapE_all_Inr) (rule rows)
  show ?thesis
    unfolding ov
    by (simp add: transpose_m_def nc sum_list_upt_sum)
qed

lemma initialize_Inr_D:
  assumes "initialize mbar_new verbose self mixture = Inr (mixture', self')"
  obtains u_kn mb flnpi u0s Ps Th Ov where
    "hstack (mix_u mixture) = Inr u_kn"
    "mbar_new u_kn (mix_n mixture) (self_tol self) (mix_f mixture) verbose = Inr mb"
    "flnpi_of (f_k mb) (mix_n mixture) = Inr flnpi"
    "u0_of flnpi (mix_u mixture) = Inr u0s"
    "P_of flnpi (mix_u mixture) u0s (mix_m mixture) = Inr Ps"
    "computeAsymptoticCovarianceMatrix mb (map (map exp) (Log_W_nk mb)) (N_k mb) = Inr Th"
    "Overlap_of (N_k mb) (W_nk mb) = Inr Ov"
    "mixture' = mixture\<lparr>mix_f := f_k mb, mix_u0 := u0s, mix_Theta := Th, mix_Overlap := Ov\<rparr>"
    "self' = self\<lparr>self_MBAR := Some mb, self_P := Ps\<rparr>"
proof -
  from assms obtain u_kn mb flnpi u0s Ps Th Ov where
    h: "hstack (mix_u mixture) = Inr u_kn"
    "mbar_new u_kn (mix_n mixture) (self_tol self) (mix_f mixture) verbose = Inr mb"
    "flnpi_of (f_k mb) (mix_n mixture) = Inr flnpi"
    "u0_of flnpi (mix_u mixture) = Inr u0s"
    "P_of flnpi (mix_u mixture) u0s (mix_m mixture) = Inr Ps"
    "computeAsymptoticCovarianceMatrix mb (map (map exp) (Log_W_nk mb)) (N_k mb) = Inr Th"
    "Overlap_of (N_k mb) (W_nk mb) = Inr Ov"
    and r: "Inr (mixture\<lparr>mix_f := f_k mb, mix_u0 := u0s, mix_Theta := Th, mix_Overlap := Ov\<rparr>,
           self\<lparr>self_MBAR := Some mb, self_P := Ps\<rparr>) = (Inr (mixture', self') :: error + mixture \<times> mbar_self)"
    unfolding initialize_def Let_def bindE_eq_Inr by blast
  from r have "mixture' = mixture\<lparr>mix_f := f_k mb, mix_u0 := u0s, mix_Theta := Th, mix_Overlap := Ov\<rparr>"
    and "self' = self\<lparr>self_MBAR := Some mb, self_P := Ps\<rparr>"
    by simp_all
  with h show ?thesis by (rule that)
qed

lemma getitem_nat: "getitem xs (int i) = Inr x \<longleftrightarrow> i < length xs \<and> x = xs ! i"
  by (auto simp: getitem_def Let_def)

lemma sub_col_rect:
  assumes "length c = length A"
  shows "sub_col c A = Inr (map2 (\<lambda>a r. map (\<lambda>x. a - x) r) c A)"
  using assms by (simp add: sub_col_def)

lemma sum_list_nth_lessThan: "(\<Sum>r\<leftarrow>xs. g r) = (\<Sum>j<length xs. g (xs ! j))"
  by (simp add: sum_list_sum_nth atLeast0LessThan)

lemma logsumexp_sub_col:
  assumes len: "length flnpi = length x" "0 < length x"
    and rect: "\<forall>r\<in>set x. length r = c"
    and s: "s < c"
  shows "logsumexp (map2 (\<lambda>a r. map (\<lambda>x. a - x) r) flnpi x) ! s
           = ln (\<Sum>j<length x. exp (flnpi ! j - x ! j ! s))"
    and "length (logsumexp (map2 (\<lambda>a r. map (\<lambda>x. a - x) r) flnpi x)) = c"
proof -
  let ?d = "map2 (\<lambda>a r. map (\<lambda>x. a - x) r) flnpi x"
  have ld: "length ?d = length x" using len by simp
  have rows: "\<And>j. j < length x \<Longrightarrow> ?d ! j = map (\<lambda>y. flnpi ! j - y) (x ! j)"
    using len by simp
  have "?d \<noteq> []" using len by auto
  moreover have "\<forall>r\<in>set ?d. length r = c"
    using rect by (auto simp: set_zip)
  ultimately have nc: "ncols ?d = c" by (rule ncols_rect)
  show "length (logsumexp ?d) = c"
    by (simp add: logsumexp_def nc)
  have "logsumexp ?d ! s = ln (\<Sum>r\<leftarrow>?d. exp (r ! s))"
    using s by (simp add: logsumexp_def nc)
  also have "(\<Sum>r\<leftarrow>?d. exp (r ! s)) = (\<Sum>j<length ?d. exp (?d ! j ! s))"
    by (rule sum_list_nth_lessThan)
  also have "\<dots> = (\<Sum>j<length x. exp (flnpi ! j - x ! j ! s))"
    unfolding ld using rect s by (intro sum.cong refl) (simp add: rows)
  finally show "logsumexp ?d ! s = ln (\<Sum>j<length x. exp (flnpi ! j - x ! j ! s))" .
qed

lemma P_of_entries:
  assumes u0: "u0_of flnpi us = Inr u0s"
    and P: "P_of flnpi us u0s m = Inr Ps"
    and i: "i < m"
    and len: "length (us ! i) = length flnpi" "0 < length flnpi"
    and rect: "\<forall>r\<in>set (us ! i). length r = c"
    and k: "k < length flnpi" and s: "s < c"
  shows "Ps ! i ! k ! s
           = exp (flnpi ! k - us ! i ! k ! s - ln (\<Sum>j<length flnpi. exp (flnpi ! j - us ! i ! j ! s)))"
proof -
  let ?x = "us ! i"
  let ?d = "map2 (\<lambda>a r. map (\<lambda>x. a - x) r) flnpi ?x"
  have sc: "sub_col flnpi ?x = Inr ?d"
    using len by (simp add: sub_col_rect)
  from P i have Pi: "bindE (getitem us (int i)) (\<lambda>x.
                bindE (sub_col flnpi x) (\<lambda>d.
                bindE (getitem u0s (int i)) (\<lambda>v.
                bindE (add_row d v) (\<lambda>e. Inr (map (map exp) e))))) = Inr (Ps ! i)"
    unfolding P_of_def mapE_eq_Inr by simp
  then have iu: "i < length us" and e: "\<exists>e. add_row ?d (u0s ! i) = Inr e \<and> Ps ! i = map (map exp) e"
    by (auto simp: bindE_eq_Inr getitem_nat sc)
  from u0 iu have "bindE (sub_col flnpi ?x) (\<lambda>d. Inr (map uminus (logsumexp d))) = Inr (u0s ! i)"
    unfolding u0_of_def mapE_eq_Inr by simp
  then have v: "u0s ! i = map uminus (logsumexp ?d)"
    by (simp add: sc)
  have len': "length flnpi = length ?x" "0 < length ?x"
    using len by simp_all
  have lse: "logsumexp ?d ! s = ln (\<Sum>j<length ?x. exp (flnpi ! j - ?x ! j ! s))"
    by (rule logsumexp_sub_col(1) [OF len' rect s])
  have llse: "length (logsumexp ?d) = c"
    by (rule logsumexp_sub_col(2) [OF len' rect s])
  have rowlen: "\<And>r. r \<in> set ?d \<Longrightarrow> length r = c"
    using rect by (auto simp: set_zip)
  have "add_row ?d (u0s ! i) = Inr (map (\<lambda>r. map2 (+) r (u0s ! i)) ?d)"
    unfolding add_row_def
    by (rule mapE_all_Inr) (simp add: broadcast2_def v llse rowlen)
  with e have Pi': "Ps ! i = map (map exp) (map (\<lambda>r. map2 (+) r (u0s ! i)) ?d)"
    by simp
  have dk: "?d ! k = map (\<lambda>y. flnpi ! k - y) (?x ! k)"
    using len k by simp
  have xk: "length (?x ! k) = c"
    using rect len k by simp
  show ?thesis
    using k s len xk by (simp add: Pi' dk v llse lse)
qed

lemma initialize_P_parts:
  assumes "initialize mbar_new verbose self mixture = Inr (mixture', self')"
    and "self_MBAR self' = Some mb"
  obtains flnpi u0s where
    "flnpi_of (f_k mb) (mix_n mixture) = Inr flnpi"
    "u0_of flnpi (mix_u mixture) = Inr u0s"
    "P_of flnpi (mix_u mixture) u0s (mix_m mixture) = Inr (self_P self')"
    "mix_u0 mixture' = u0s"
  using assms by (auto elim!: initialize_Inr_D)

lemma flnpi_of_rect:
  assumes "length fs = length ns"
  shows "flnpi_of fs ns = Inr (map2 (+) fs (map (\<lambda>k. ln (real k / real (sum_list ns))) ns))"
  using assms by (simp add: flnpi_of_def broadcast2_def)

lemma sum_exp_pos:
  assumes "0 < (K::nat)"
  shows "0 < (\<Sum>j<K. exp (a j :: real))"
  using assms by (intro sum_pos) auto

lemma softmax_sums_to_one:
  assumes "0 < (K::nat)"
  shows "(\<Sum>k<K. exp (a k - ln (\<Sum>j<K. exp (a j :: real)))) = 1"
proof -
  let ?S = "\<Sum>j<K. exp (a j)"
  have pos: "0 < ?S" using assms by (rule sum_exp_pos)
  have "(\<Sum>k<K. exp (a k - ln ?S)) = (\<Sum>k<K. exp (a k) / ?S)"
    using pos by (simp add: exp_diff)
  also have "\<dots> = ?S / ?S"
    by (rule sum_divide_distrib [symmetric])
  also have "\<dots> = 1" using pos by simp
  finally show ?thesis .
qed

lemma hstack_same_rows:
  assumes "bs \<noteq> []" and "\<forall>c\<in>set bs. length c = K"
  shows "hstack bs = Inr (map (\<lambda>r. concat (map (\<lambda>c. c ! r) bs)) [0..<K])"
  using assms by (cases bs) (simp_all add: hstack_def)

lemma u0_of_rect:
  assumes "\<forall>x\<in>set us. length x = length flnpi"
  shows "u0_of flnpi us
           = Inr (map (\<lambda>x. map uminus (logsumexp (map2 (\<lambda>a r. map (\<lambda>y. a - y) r) flnpi x))) us)"
  unfolding u0_of_def
  by (rule mapE_all_Inr) (simp add: sub_col_rect assms)

lemma add_row_rect:
  assumes "\<forall>r\<in>set d. length r = length v"
  shows "add_row d v = Inr (map (\<lambda>r. map2 (+) r v) d)"
  unfolding add_row_def
  by (rule mapE_all_Inr) (simp add: broadcast2_def assms)

lemma length_logsumexp: "length (logsumexp d) = ncols d"
  by (simp add: logsumexp_def)

lemma P_of_rect:
  assumes m: "m \<le> length us"
    and us: "\<forall>x\<in>set us. length x = length flnpi \<and> (\<forall>r\<in>set x. length r = ncols x)"
    and u0s: "u0s = map (\<lambda>x. map uminus (logsumexp (map2 (\<lambda>a r. map (\<lambda>y. a - y) r) flnpi x))) us"
  shows "\<exists>Ps. P_of flnpi us u0s m = Inr Ps"
proof -
  let ?d = "\<lambda>x. map2 (\<lambda>a r. map (\<lambda>y. a - y) r) flnpi x"
  let ?h = "\<lambda>i. map (map exp) (map (\<lambda>r. map2 (+) r (u0s ! i)) (?d (us ! i)))"
  have "P_of flnpi us u0s m = Inr (map ?h [0..<m])"
    unfolding P_of_def
  proof (rule mapE_all_Inr)
    fix i assume "i \<in> set [0..<m]"
    then have i: "i < length us" using m by simp
    let ?x = "us ! i"
    have x: "length ?x = length flnpi" "\<forall>r\<in>set ?x. length r = ncols ?x"
      using us i by simp_all
    have gi: "getitem us (int i) = Inr ?x"
      using i by (simp add: getitem_nat)
    have sc: "sub_col flnpi ?x = Inr (?d ?x)"
      using x(1) by (simp add: sub_col_rect)
    have v: "u0s ! i = map uminus (logsumexp (?d ?x))"
      using i by (simp add: u0s)
    have gv: "getitem u0s (int i) = Inr (u0s ! i)"
      using i by (simp add: getitem_nat u0s)
    have rows: "\<forall>r\<in>set (?d ?x). length r = ncols ?x"
      using x(2) by (auto simp: set_zip)
    have nc: "?d ?x \<noteq> [] \<Longrightarrow> ncols (?d ?x) = ncols ?x"
      using rows by (rule ncols_rect [rotated]) 
    have "\<forall>r\<in>set (?d ?x). length r = length (u0s ! i)"
    proof
      fix r assume r: "r \<in> set (?d ?x)"
      then have "?d ?x \<noteq> []" by auto
      then have "ncols (?d ?x) = ncols ?x" by (rule nc)
      moreover have "length r = ncols ?x" using rows r by blast
      ultimately show "length r = length (u0s ! i)"
        by (simp only: v length_map length_logsumexp)
    qed
    then have ar: "add_row (?d ?x) (u0s ! i) = Inr (map (\<lambda>r. map2 (+) r (u0s ! i)) (?d ?x))"
      by (rule add_row_rect)
    show "bindE (getitem us (int i)) (\<lambda>x.
            bindE (sub_col flnpi x) (\<lambda>d.
            bindE (getitem u0s (int i)) (\<lambda>v.
            bindE (add_row d v) (\<lambda>e. Inr (map (map exp) e))))) = Inr (?h i)"
      by (simp add: gi sc gv ar)
  qed
  then show ?thesis by blast
qed

lemma initialize_returns:
  assumes us: "mix_u mixture \<noteq> []"
      "\<forall>x\<in>set (mix_u mixture). length x = length (mix_n mixture) \<and> (\<forall>r\<in>set x. length r = ncols x)"
    and m: "mix_m mixture \<le> length (mix_u mixture)"
    and mb: "mbar_new (map (\<lambda>r. concat (map (\<lambda>c. c ! r) (mix_u mixture))) [0..<length (mix_n mixture)])
               (mix_n mixture) (self_tol self) (mix_f mixture) verbose = Inr mb"
    and f: "length (f_k mb) = length (mix_n mixture)"
    and th: "computeAsymptoticCovarianceMatrix mb (map (map exp) (Log_W_nk mb)) (N_k mb) = Inr Th"
    and W: "W_nk mb \<noteq> []" "\<forall>r\<in>set (W_nk mb). length r = length (N_k mb)"
  shows "\<exists>u0s Ps Ov. Overlap_of (N_k mb) (W_nk mb) = Inr Ov \<and>
           initialize mbar_new verbose self mixture
             = Inr (mixture\<lparr>mix_f := f_k mb, mix_u0 := u0s, mix_Theta := Th, mix_Overlap := Ov\<rparr>,
                    self\<lparr>self_MBAR := Some mb, self_P := Ps\<rparr>)"
proof -
  let ?flnpi = "map2 (+) (f_k mb) (map (\<lambda>k. ln (real k / real (sum_list (mix_n mixture)))) (mix_n mixture))"
  let ?u0s = "map (\<lambda>x. map uminus (logsumexp (map2 (\<lambda>a r. map (\<lambda>y. a - y) r) ?flnpi x))) (mix_u mixture)"
  have hs: "hstack (mix_u mixture)
      = Inr (map (\<lambda>r. concat (map (\<lambda>c. c ! r) (mix_u mixture))) [0..<length (mix_n mixture)])"
    using us by (intro hstack_same_rows) simp_all
  have fl: "flnpi_of (f_k mb) (mix_n mixture) = Inr ?flnpi"
    using f by (rule flnpi_of_rect)
  have lfl: "length ?flnpi = length (mix_n mixture)"
    using f by simp
  have us': "\<forall>x\<in>set (mix_u mixture). length x = length ?flnpi \<and> (\<forall>r\<in>set x. length r = ncols x)"
    using us(2) unfolding lfl .
  have u0: "u0_of ?flnpi (mix_u mixture) = Inr ?u0s"
    using us' by (intro u0_of_rect) simp
  obtain Ps where P: "P_of ?flnpi (mix_u mixture) ?u0s (mix_m mixture) = Inr Ps"
    using P_of_rect [OF m us' refl] by blast
  obtain Ov where ov: "Overlap_of (N_k mb) (W_nk mb) = Inr Ov"
    using Overlap_of_entries [OF W] by blast
  have "initialize mbar_new verbose self mixture
             = Inr (mixture\<lparr>mix_f := f_k mb, mix_u0 := ?u0s, mix_Theta := Th, mix_Overlap := Ov\<rparr>,
                    self\<lparr>self_MBAR := Some mb, self_P := Ps\<rparr>)"
    unfolding initialize_def Let_def
    by (simp only: hs mb fl u0 P th ov bindE_Inr)
  with ov show ?thesis by blast
qed

subsection \<open>The concrete mixture, evaluated\<close>

lemma ex_hstack: "hstack (mix_u ex_mixture) = Inr [[0, 0, 0], [0, 0, 0]]"
  by (simp add: ex_mixture_def hstack_def)

lemma ex_Overlap: "Overlap_of (N_k ex_mb) (W_nk ex_mb) = Inr [[1/3, 2/3], [1/3, 2/3]]"
  by (simp add: ex_mb_def Overlap_of_def matmul_def transpose_m_def ncols_def mul_row_def
      broadcast2_def numeral_3_eq_3)

lemma ex_flnpi: "flnpi_of (f_k ex_mb) (mix_n ex_mixture) = Inr [ln (1/3), ln (2/3)]"
  by (simp add: ex_mb_def ex_mixture_def flnpi_of_def broadcast2_def)

lemma ex_u0: "u0_of [ln (1/3), ln (2/3)] (mix_u ex_mixture) = Inr [[0], [0, 0]]"
  by (simp add: ex_mixture_def u0_of_def sub_col_def logsumexp_def ncols_def)

lemma ex_P: "P_of [ln (1/3), ln (2/3)] (mix_u ex_mixture) [[0], [0, 0]] (mix_m ex_mixture)
   = Inr [[[1/3], [2/3]], [[1/3, 1/3], [2/3, 2/3]]]"
  by (simp add: ex_mixture_def P_of_def sub_col_def getitem_def add_row_def broadcast2_def upt_rec)

lemma ex_cov:
  "computeAsymptoticCovarianceMatrix ex_mb (map (map exp) (Log_W_nk ex_mb)) (N_k ex_mb)
     = Inr [[0, 0], [0, 0]]"
  by (simp add: ex_mb_def)

lemma ex_initialize:
  "initialize ex_new False ex_self ex_mixture =
     Inr (ex_mixture\<lparr>mix_f := f_k ex_mb, mix_u0 := [[0], [0, 0]], mix_Theta := [[0, 0], [0, 0]],
            mix_Overlap := [[1/3, 2/3], [1/3, 2/3]]\<rparr>,
          ex_self\<lparr>self_MBAR := Some ex_mb, self_P := [[[1/3], [2/3]], [[1/3, 1/3], [2/3, 2/3]]]\<rparr>)"
  unfolding initialize_def Let_def
  by (simp only: ex_hstack ex_new_def ex_flnpi ex_u0 ex_P ex_cov ex_Overlap bindE_Inr)

lemma ex_initialize_fitted:
  "initialize ex_new False ex_self ex_mixture = Inr (ex_fitted, ex_self_fitted)"
  by (simp add: ex_initialize ex_fitted_def ex_self_fitted_def ex_mb_def)

lemma ex_spec_weight:
  "k < 2 \<Longrightarrow> s < 3 \<Longrightarrow> spec_weight [0, 0] [1, 2] [[0, 0, 0], [0, 0, 0]] k s = 1 / 3"
  by (auto simp: spec_weight_def less_Suc_eq numeral_2_eq_2 numeral_3_eq_3 exp_minus exp_diff)

lemma ex_weights:
  "\<forall>s<3. \<forall>k<2. W_nk ex_mb ! s ! k = spec_weight (f_k ex_mb) (N_k ex_mb) [[0, 0, 0], [0, 0, 0]] k s"
  using ex_spec_weight by (auto simp: ex_mb_def less_Suc_eq numeral_2_eq_2 numeral_3_eq_3)

lemma ex_shapes:
  "mix_u ex_mixture \<noteq> []"
  "\<forall>x\<in>set (mix_u ex_mixture). length x = length (mix_n ex_mixture) \<and> (\<forall>r\<in>set x. length r = ncols x)"
  "mix_m ex_mixture \<le> length (mix_u ex_mixture)"
  "ex_new (map (\<lambda>r. concat (map (\<lambda>c. c ! r) (mix_u ex_mixture))) [0..<length (mix_n ex_mixture)])
               (mix_n ex_mixture) (self_tol ex_self) (mix_f ex_mixture) False = Inr ex_mb"
  "length (f_k ex_mb) = length (mix_n ex_mixture)"
  "computeAsymptoticCovarianceMatrix ex_mb (map (map exp) (Log_W_nk ex_mb)) (N_k ex_mb) = Inr [[0, 0], [0, 0]]"
  "W_nk ex_mb \<noteq> []"
  "\<forall>r\<in>set (W_nk ex_mb). length r = length (N_k ex_mb)"
  by (simp_all add: ex_mixture_def ex_new_def ex_mb_def ncols_def)

subsection \<open>The overlap matrix\<close>

text \<open>
  Claim C5. For a mixture whose blocks have one row per state, an estimator that the
  library constructs for it, and a weight matrix \<^verbatim>\<open>mb.W_nk\<close> with at least one
  sample row and one column per state, \<^verbatim>\<open>__initialize__\<close> returns, and the overlap
  matrix it stores on the mixture is square with the entries
  \<open>O[i][j] = N\<^sub>j * (\<Sum>n. W[n][i] * W[n][j])\<close>, where \<open>N\<close> is \<^verbatim>\<open>mb.N_k\<close>.
\<close>

theorem overlap_entries:
  assumes "mix_u mixture \<noteq> []"
    and "\<forall>x\<in>set (mix_u mixture). length x = length (mix_n mixture) \<and> (\<forall>r\<in>set x. length r = ncols x)"
    and "mix_m mixture \<le> length (mix_u mixture)"
    and "mbar_new (map (\<lambda>r. concat (map (\<lambda>c. c ! r) (mix_u mixture))) [0..<length (mix_n mixture)])
               (mix_n mixture) (self_tol self) (mix_f mixture) verbose = Inr mb"
    and "length (f_k mb) = length (mix_n mixture)"
    and "computeAsymptoticCovarianceMatrix mb (map (map exp) (Log_W_nk mb)) (N_k mb) = Inr Th"
    and "W_nk mb \<noteq> []"
    and "\<forall>r\<in>set (W_nk mb). length r = length (N_k mb)"
  shows "\<exists>mixture' self'.
           initialize mbar_new verbose self mixture = Inr (mixture', self') \<and>
           self_MBAR self' = Some mb \<and>
           length (mix_Overlap mixture') = length (N_k mb) \<and>
           (\<forall>i<length (N_k mb). length (mix_Overlap mixture' ! i) = length (N_k mb) \<and>
              (\<forall>j<length (N_k mb). mix_Overlap mixture' ! i ! j =
                 real (N_k mb ! j) * (\<Sum>s<length (W_nk mb). W_nk mb ! s ! i * W_nk mb ! s ! j)))"
proof -
  obtain u0s Ps Ov where ov: "Overlap_of (N_k mb) (W_nk mb) = Inr Ov"
    and init: "initialize mbar_new verbose self mixture
             = Inr (mixture\<lparr>mix_f := f_k mb, mix_u0 := u0s, mix_Theta := Th, mix_Overlap := Ov\<rparr>,
                    self\<lparr>self_MBAR := Some mb, self_P := Ps\<rparr>)"
    using initialize_returns [where mbar_new = mbar_new and self = self and verbose = verbose, OF assms] by blast
  have ent: "length Ov = length (N_k mb) \<and>
     (\<forall>i<length (N_k mb). length (Ov ! i) = length (N_k mb) \<and>
        (\<forall>j<length (N_k mb). Ov ! i ! j =
           real (N_k mb ! j) * (\<Sum>s<length (W_nk mb). W_nk mb ! s ! i * W_nk mb ! s ! j)))"
    using Overlap_of_entries [OF assms(7,8)] ov by auto
  show ?thesis
    by (rule exI [of _ "mixture\<lparr>mix_f := f_k mb, mix_u0 := u0s, mix_Theta := Th, mix_Overlap := Ov\<rparr>"],
        rule exI [of _ "self\<lparr>self_MBAR := Some mb, self_P := Ps\<rparr>"])
       (simp add: init ent)
qed

theorem overlap_entries_witness:
  "initialize ex_new False ex_self ex_mixture = Inr (ex_fitted, ex_self_fitted) \<and>
   self_MBAR ex_self_fitted = Some ex_mb \<and>
   mix_Overlap ex_fitted ! 0 ! 1 =
     real (N_k ex_mb ! 1) * (\<Sum>s<length (W_nk ex_mb). W_nk ex_mb ! s ! 0 * W_nk ex_mb ! s ! 1)"
proof -
  have l: "(0::nat) < length (N_k ex_mb)" "(1::nat) < length (N_k ex_mb)"
    by (simp_all add: ex_mb_def)
  show ?thesis
    using overlap_entries [where mbar_new = ex_new and self = ex_self and verbose = False, OF ex_shapes] ex_initialize_fitted l
    by (auto simp: ex_self_fitted_def)
qed




subsection \<open>The probability matrix\<close>

text \<open>
  Claim C10. The matrices \<^verbatim>\<open>self.P\<close> built by \<^verbatim>\<open>__initialize__\<close> are normalised over
  the states: for every block \<open>i\<close> and every sample \<open>s\<close> of the block the entries
  \<open>P[i][k][s]\<close> sum to one over \<open>k\<close>. The mixture has at least one state, the
  estimator returns one free energy per state, and block \<open>i\<close> has one row per state.
\<close>

theorem P_column_normalized:
  assumes "initialize mbar_new verbose self mixture = Inr (mixture', self')"
    and "self_MBAR self' = Some mb"
    and "length (f_k mb) = length (mix_n mixture)"
    and "0 < length (mix_n mixture)"
    and "i < mix_m mixture"
    and "length (mix_u mixture ! i) = length (mix_n mixture)"
    and "\<forall>r\<in>set (mix_u mixture ! i). length r = c"
    and "s < c"
  shows "(\<Sum>k<length (mix_n mixture). self_P self' ! i ! k ! s) = 1"
proof -
  let ?K = "length (mix_n mixture)"
  from assms(1,2) obtain flnpi u0s where
    fl: "flnpi_of (f_k mb) (mix_n mixture) = Inr flnpi"
    and u0: "u0_of flnpi (mix_u mixture) = Inr u0s"
    and P: "P_of flnpi (mix_u mixture) u0s (mix_m mixture) = Inr (self_P self')"
    by (rule initialize_P_parts)
  have lfl: "length flnpi = ?K"
    using fl assms(3) by (auto simp: flnpi_of_rect)
  have ent: "\<And>k. k < ?K \<Longrightarrow> self_P self' ! i ! k ! s
      = exp (flnpi ! k - mix_u mixture ! i ! k ! s
             - ln (\<Sum>j<?K. exp (flnpi ! j - mix_u mixture ! i ! j ! s)))"
    using P_of_entries [OF u0 P assms(5) _ _ assms(7) _ assms(8)] assms(4,6) lfl by simp
  have "(\<Sum>k<?K. self_P self' ! i ! k ! s)
      = (\<Sum>k<?K. exp (flnpi ! k - mix_u mixture ! i ! k ! s
             - ln (\<Sum>j<?K. exp (flnpi ! j - mix_u mixture ! i ! j ! s))))"
    by (rule sum.cong) (simp_all add: ent)
  also have "\<dots> = 1"
    using assms(4) by (rule softmax_sums_to_one)
  finally show ?thesis .
qed

theorem P_column_normalized_witness:
  "initialize ex_new False ex_self ex_mixture = Inr (ex_fitted, ex_self_fitted) \<and>
   self_MBAR ex_self_fitted = Some ex_mb \<and>
   (\<Sum>k<length (mix_n ex_mixture). self_P ex_self_fitted ! 1 ! k ! 0) = 1"
proof -
  have s: "self_MBAR ex_self_fitted = Some ex_mb"
    by (simp add: ex_self_fitted_def)
  have h: "length (f_k ex_mb) = length (mix_n ex_mixture)" "0 < length (mix_n ex_mixture)"
    "1 < mix_m ex_mixture" "length (mix_u ex_mixture ! 1) = length (mix_n ex_mixture)"
    "\<forall>r\<in>set (mix_u ex_mixture ! 1). length r = 2" "(0::nat) < 2"
    by (simp_all add: ex_mb_def ex_mixture_def)
  show ?thesis
    using P_column_normalized [OF ex_initialize_fitted s h] ex_initialize_fitted s
    by simp
qed

subsection \<open>Reweighting: the steps of the method\<close>

lemma setitem2_ok:
  assumes "i < length A" and "j < length (A ! i)"
  shows "setitem2 A i j v = Inr (A[i := (A ! i)[j := v]])"
  using assms by (simp add: setitem2_def)

lemma update2_nth:
  assumes "r < length A"
  shows "A[i := (A ! i)[j := v]] ! r ! c = (if r = i \<and> c = j \<and> c < length (A ! i) then v else A ! r ! c)"
  using assms by (cases "r = i") (auto simp: nth_list_update list_update_beyond)

lemma update2_shape:
  assumes "\<forall>row\<in>set A. length row = m"
  shows "\<forall>row\<in>set (A[i := (A ! i)[j := v]]). length row = m"
proof (cases "i < length A")
  case True
  with assms show ?thesis
    by (simp add: all_set_conv_all_nth nth_list_update)
next
  case False
  with assms show ?thesis
    by (simp add: list_update_beyond)
qed

lemma fill_G_case:
  assumes "i < (n::nat)"
  shows "(if 0 < c \<and> c - 1 \<in> set rest \<and> r = c - 1 then (delta :: real list) ! (c - 1)
          else if 0 < c \<and> c - 1 \<in> set rest \<and> r = n + c then - delta ! (c - 1)
          else if r = n + 1 + i \<and> c = i + 1 then - delta ! i
          else if r = i \<and> c = i + 1 then delta ! i else g)
       = (if 0 < c \<and> c - 1 \<in> set (i # rest) \<and> r = c - 1 then delta ! (c - 1)
          else if 0 < c \<and> c - 1 \<in> set (i # rest) \<and> r = n + c then - delta ! (c - 1)
          else g)"
proof (cases c)
  case 0
  then show ?thesis by simp
next
  case (Suc c')
  show ?thesis
  proof (cases "c' = i")
    case True
    then show ?thesis using Suc assms by simp
  next
    case False
    then show ?thesis using Suc by simp
  qed
qed

lemma fill_G_entries:
  assumes "length G0 = 2 * (n + 1)"
    and "\<forall>row\<in>set G0. length row = n + 1"
    and "\<forall>i\<in>set is. i < n"
    and "n \<le> length delta"
  shows "\<exists>G. fill_G n delta is G0 = Inr G \<and> length G = 2 * (n + 1) \<and>
           (\<forall>row\<in>set G. length row = n + 1) \<and>
           (\<forall>r<2 * (n + 1). \<forall>c<n + 1. G ! r ! c =
              (if 0 < c \<and> c - 1 \<in> set is \<and> r = c - 1 then delta ! (c - 1)
               else if 0 < c \<and> c - 1 \<in> set is \<and> r = n + c then - delta ! (c - 1)
               else G0 ! r ! c))"
  using assms
proof (induction "is" arbitrary: G0)
  case Nil
  then show ?case by simp
next
  case (Cons i rest)
  let ?d = "delta ! i"
  let ?G1 = "G0[i := (G0 ! i)[i + 1 := ?d]]"
  let ?G2 = "?G1[n + 1 + i := (?G1 ! (n + 1 + i))[i + 1 := - ?d]]"
  have i: "i < n" using Cons.prems(3) by simp
  have gd: "getitem delta (int i) = Inr ?d"
    using i Cons.prems(4) by (simp add: getitem_nat)
  have rowlen0: "\<And>r. r < 2 * (n + 1) \<Longrightarrow> length (G0 ! r) = n + 1"
    using Cons.prems(1,2) by simp
  have s1: "setitem2 G0 i (i + 1) ?d = Inr ?G1"
    using i Cons.prems(1) rowlen0 [of i] by (intro setitem2_ok) simp_all
  have l1: "length ?G1 = 2 * (n + 1)" using Cons.prems(1) by simp
  have sh1: "\<forall>row\<in>set ?G1. length row = n + 1"
    using Cons.prems(2) by (rule update2_shape)
  have rowlen1: "\<And>r. r < 2 * (n + 1) \<Longrightarrow> length (?G1 ! r) = n + 1"
    using l1 sh1 by simp
  have s2: "setitem2 ?G1 (n + 1 + i) (i + 1) (- ?d) = Inr ?G2"
    using i l1 rowlen1 [of "n + 1 + i"] by (intro setitem2_ok) simp_all
  have l2: "length ?G2 = 2 * (n + 1)" using l1 by simp
  have sh2: "\<forall>row\<in>set ?G2. length row = n + 1"
    using sh1 by (rule update2_shape)
  have step: "fill_G n delta (i # rest) G0 = fill_G n delta rest ?G2"
    by (simp only: fill_G.simps gd s1 s2 bindE_Inr)
  have rest: "\<forall>i\<in>set rest. i < n" using Cons.prems(3) by simp
  from Cons.IH [OF l2 sh2 rest Cons.prems(4)]
  obtain G where G: "fill_G n delta rest ?G2 = Inr G" "length G = 2 * (n + 1)"
    "\<forall>row\<in>set G. length row = n + 1"
    and ent: "\<forall>r<2 * (n + 1). \<forall>c<n + 1. G ! r ! c =
              (if 0 < c \<and> c - 1 \<in> set rest \<and> r = c - 1 then delta ! (c - 1)
               else if 0 < c \<and> c - 1 \<in> set rest \<and> r = n + c then - delta ! (c - 1)
               else ?G2 ! r ! c)"
    by blast
  have g2: "\<And>r c. r < 2 * (n + 1) \<Longrightarrow> c < n + 1 \<Longrightarrow>
      ?G2 ! r ! c = (if r = n + 1 + i \<and> c = i + 1 then - ?d
                     else if r = i \<and> c = i + 1 then ?d else G0 ! r ! c)"
  proof -
    fix r c assume r: "r < 2 * (n + 1)" and c: "c < n + 1"
    have a: "?G2 ! r ! c = (if r = n + 1 + i \<and> c = i + 1 \<and> c < length (?G1 ! (n + 1 + i)) then - ?d else ?G1 ! r ! c)"
      using r l1 by (intro update2_nth) simp
    have b: "?G1 ! r ! c = (if r = i \<and> c = i + 1 \<and> c < length (G0 ! i) then ?d else G0 ! r ! c)"
      using r Cons.prems(1) by (intro update2_nth) simp
    show "?G2 ! r ! c = (if r = n + 1 + i \<and> c = i + 1 then - ?d
                     else if r = i \<and> c = i + 1 then ?d else G0 ! r ! c)"
      unfolding a b using i c rowlen1 [of "n + 1 + i"] rowlen0 [of i] by simp
  qed
  have "\<forall>r<2 * (n + 1). \<forall>c<n + 1. G ! r ! c =
              (if 0 < c \<and> c - 1 \<in> set (i # rest) \<and> r = c - 1 then delta ! (c - 1)
               else if 0 < c \<and> c - 1 \<in> set (i # rest) \<and> r = n + c then - delta ! (c - 1)
               else G0 ! r ! c)"
  proof (intro allI impI)
    fix r c assume r: "r < 2 * (n + 1)" and c: "c < n + 1"
    show "G ! r ! c =
              (if 0 < c \<and> c - 1 \<in> set (i # rest) \<and> r = c - 1 then delta ! (c - 1)
               else if 0 < c \<and> c - 1 \<in> set (i # rest) \<and> r = n + c then - delta ! (c - 1)
               else G0 ! r ! c)"
      unfolding ent [rule_format, OF r c] g2 [OF r c]
      using i by (rule fill_G_case)
  qed
  then show ?case
    unfolding step using G by blast
qed

lemma zeros_shape:
  "length (zeros r c) = r" "\<forall>row\<in>set (zeros r c). length row = c"
  "i < r \<Longrightarrow> j < c \<Longrightarrow> zeros r c ! i ! j = 0"
  by (simp_all add: zeros_def)

lemma gradient_entries:
  assumes "n \<le> length delta" and "0 < n"
  shows "\<exists>G1 G2 G.
           setitem2 (zeros (2 * (n + 1)) (n + 1)) (n + 1) 0 (- 1) = Inr G1 \<and>
           setitem2 G1 (2 * n + 1) 0 1 = Inr G2 \<and>
           fill_G n delta [0..<n] G2 = Inr G \<and>
           length G = 2 * (n + 1) \<and> (\<forall>row\<in>set G. length row = n + 1) \<and>
           (\<forall>r<2 * (n + 1). \<forall>c<n + 1. G ! r ! c =
              (if c = 0 then (if r = n + 1 then - 1 else if r = 2 * n + 1 then 1 else 0)
               else if r = c - 1 then delta ! (c - 1)
               else if r = n + c then - delta ! (c - 1)
               else 0))"
proof -
  let ?Z = "zeros (2 * (n + 1)) (n + 1)"
  let ?G1 = "?Z[n + 1 := (?Z ! (n + 1))[0 := - 1]]"
  let ?G2 = "?G1[2 * n + 1 := (?G1 ! (2 * n + 1))[0 := 1]]"
  have lz: "length ?Z = 2 * (n + 1)" and shz: "\<forall>row\<in>set ?Z. length row = n + 1"
    by (rule zeros_shape)+
  have rowz: "\<And>r. r < 2 * (n + 1) \<Longrightarrow> length (?Z ! r) = n + 1"
    using lz shz by simp
  have s1: "setitem2 ?Z (n + 1) 0 (- 1) = Inr ?G1"
    using lz rowz [of "n + 1"] by (intro setitem2_ok) simp_all
  have l1: "length ?G1 = 2 * (n + 1)" using lz by simp
  have sh1: "\<forall>row\<in>set ?G1. length row = n + 1"
    using shz by (rule update2_shape)
  have row1: "\<And>r. r < 2 * (n + 1) \<Longrightarrow> length (?G1 ! r) = n + 1"
    using l1 sh1 by simp
  have s2: "setitem2 ?G1 (2 * n + 1) 0 1 = Inr ?G2"
    using l1 row1 [of "2 * n + 1"] by (intro setitem2_ok) simp_all
  have l2: "length ?G2 = 2 * (n + 1)" using l1 by simp
  have sh2: "\<forall>row\<in>set ?G2. length row = n + 1"
    using sh1 by (rule update2_shape)
  have g2: "\<And>r c. r < 2 * (n + 1) \<Longrightarrow> c < n + 1 \<Longrightarrow>
      ?G2 ! r ! c = (if r = 2 * n + 1 \<and> c = 0 then 1 else if r = n + 1 \<and> c = 0 then - 1 else 0)"
  proof -
    fix r c assume r: "r < 2 * (n + 1)" and c: "c < n + 1"
    have a: "?G2 ! r ! c = (if r = 2 * n + 1 \<and> c = 0 \<and> c < length (?G1 ! (2 * n + 1)) then 1 else ?G1 ! r ! c)"
      using r l1 by (intro update2_nth) simp
    have b: "?G1 ! r ! c = (if r = n + 1 \<and> c = 0 \<and> c < length (?Z ! (n + 1)) then - 1 else ?Z ! r ! c)"
      using r lz by (intro update2_nth) simp
    have z: "?Z ! r ! c = 0" using r c by (rule zeros_shape(3))
    show "?G2 ! r ! c = (if r = 2 * n + 1 \<and> c = 0 then 1 else if r = n + 1 \<and> c = 0 then - 1 else 0)"
      unfolding a b z using row1 [of "2 * n + 1"] rowz [of "n + 1"] by simp
  qed
  have idx: "\<forall>i\<in>set [0..<n]. i < n" by simp
  from fill_G_entries [OF l2 sh2 idx assms(1)]
  obtain G where G: "fill_G n delta [0..<n] ?G2 = Inr G" "length G = 2 * (n + 1)"
    "\<forall>row\<in>set G. length row = n + 1"
    and ent: "\<forall>r<2 * (n + 1). \<forall>c<n + 1. G ! r ! c =
              (if 0 < c \<and> c - 1 \<in> set [0..<n] \<and> r = c - 1 then delta ! (c - 1)
               else if 0 < c \<and> c - 1 \<in> set [0..<n] \<and> r = n + c then - delta ! (c - 1)
               else ?G2 ! r ! c)"
    by blast
  have "\<forall>r<2 * (n + 1). \<forall>c<n + 1. G ! r ! c =
              (if c = 0 then (if r = n + 1 then - 1 else if r = 2 * n + 1 then 1 else 0)
               else if r = c - 1 then delta ! (c - 1)
               else if r = n + c then - delta ! (c - 1)
               else 0)"
  proof (intro allI impI)
    fix r c assume r: "r < 2 * (n + 1)" and c: "c < n + 1"
    show "G ! r ! c =
              (if c = 0 then (if r = n + 1 then - 1 else if r = 2 * n + 1 then 1 else 0)
               else if r = c - 1 then delta ! (c - 1)
               else if r = n + c then - delta ! (c - 1)
               else 0)"
      unfolding ent [rule_format, OF r c] g2 [OF r c]
      using c assms(2) by (cases c) simp_all
  qed
  with s1 s2 G show ?thesis by blast
qed

lemma matmul_entries:
  assumes "\<forall>r\<in>set A. length r = length B" and "B \<noteq> []" and "\<forall>r\<in>set B. length r = m"
  shows "\<exists>M. matmul A B = Inr M \<and> length M = length A \<and>
           (\<forall>i<length A. length (M ! i) = m \<and>
              (\<forall>j<m. M ! i ! j = (\<Sum>k<length B. A ! i ! k * B ! k ! j)))"
proof -
  have nc: "ncols B = m" using assms(2,3) by (rule ncols_rect)
  show ?thesis
    using assms(1) by (simp add: matmul_def nc sum_list_upt_sum)
qed

lemma transpose_m_entries:
  assumes "A \<noteq> []" and "\<forall>r\<in>set A. length r = m"
  shows "length (transpose_m A) = m"
    and "\<forall>r\<in>set (transpose_m A). length r = length A"
    and "a < m \<Longrightarrow> p < length A \<Longrightarrow> transpose_m A ! a ! p = A ! p ! a"
proof -
  have nc: "ncols A = m" using assms by (rule ncols_rect)
  show "length (transpose_m A) = m"
    and "\<forall>r\<in>set (transpose_m A). length r = length A"
    and "a < m \<Longrightarrow> p < length A \<Longrightarrow> transpose_m A ! a ! p = A ! p ! a"
    by (auto simp: transpose_m_def nc)
qed

lemma multi_dot3_entries:
  assumes G: "length G = l" "0 < l" "\<forall>row\<in>set G. length row = m"
    and T: "length T = l" "\<forall>row\<in>set T. length row = l"
  shows "\<exists>cov. multi_dot3 (transpose_m G) T G = Inr cov \<and> length cov = m \<and>
           (\<forall>a<m. length (cov ! a) = m \<and>
              (\<forall>b<m. cov ! a ! b = (\<Sum>p<l. \<Sum>q<l. G ! p ! a * T ! p ! q * G ! q ! b)))"
proof -
  have Gne: "G \<noteq> []" using G(1,2) by auto
  have TG: "\<forall>r\<in>set T. length r = length G" using T(2) G(1) by simp
  obtain TG where tg: "matmul T G = Inr TG" "length TG = l"
    and tge: "\<forall>p<l. length (TG ! p) = m \<and> (\<forall>b<m. TG ! p ! b = (\<Sum>q<l. T ! p ! q * G ! q ! b))"
    using matmul_entries [OF TG Gne G(3)] T(1) G(1) by auto
  have TGne: "TG \<noteq> []" using tg(2) G(2) by auto
  have TGrows: "\<forall>r\<in>set TG. length r = m"
    using tge tg(2) by (auto simp: all_set_conv_all_nth)
  have lt: "length (transpose_m G) = m"
    and rt: "\<forall>r\<in>set (transpose_m G). length r = length G"
    and et: "\<And>a p. a < m \<Longrightarrow> p < length G \<Longrightarrow> transpose_m G ! a ! p = G ! p ! a"
    using transpose_m_entries [OF Gne G(3)] by blast+
  have rt': "\<forall>r\<in>set (transpose_m G). length r = length TG"
    using rt tg(2) G(1) by simp
  obtain cov where c: "matmul (transpose_m G) TG = Inr cov" "length cov = m"
    and ce: "\<forall>a<m. length (cov ! a) = m \<and> (\<forall>b<m. cov ! a ! b = (\<Sum>p<l. transpose_m G ! a ! p * TG ! p ! b))"
    using matmul_entries [OF rt' TGne TGrows] lt tg(2) by auto
  have md: "multi_dot3 (transpose_m G) T G = Inr cov"
    by (simp add: multi_dot3_def tg(1) c(1))
  have "\<forall>a<m. length (cov ! a) = m \<and>
              (\<forall>b<m. cov ! a ! b = (\<Sum>p<l. \<Sum>q<l. G ! p ! a * T ! p ! q * G ! q ! b))"
  proof (intro allI impI conjI)
    fix a assume a: "a < m"
    show "length (cov ! a) = m" using ce a by simp
    fix b assume b: "b < m"
    have "cov ! a ! b = (\<Sum>p<l. transpose_m G ! a ! p * TG ! p ! b)"
      using ce a b by simp
    also have "\<dots> = (\<Sum>p<l. G ! p ! a * (\<Sum>q<l. T ! p ! q * G ! q ! b))"
      using tge a b G(1) by (intro sum.cong refl) (simp add: et)
    also have "\<dots> = (\<Sum>p<l. \<Sum>q<l. G ! p ! a * T ! p ! q * G ! q ! b)"
      by (simp add: sum_distrib_left mult.assoc)
    finally show "cov ! a ! b = (\<Sum>p<l. \<Sum>q<l. G ! p ! a * T ! p ! q * G ! q ! b)" .
  qed
  with md c(2) show ?thesis by blast
qed

lemma getitem_nat_ok: "i < length xs \<Longrightarrow> getitem xs (int i) = Inr (xs ! i)"
  by (simp add: getitem_def Let_def)

lemma getitem_0: "0 < length xs \<Longrightarrow> getitem xs 0 = Inr (xs ! 0)"
  by (simp add: getitem_def)

lemma getitem_1: "1 < length xs \<Longrightarrow> getitem xs 1 = Inr (xs ! 1)"
  by (simp add: getitem_def)

lemma getitem2_nat:
  assumes "i < length A" and "j < length (A ! i)"
  shows "getitem2 A (int i) (int j) = Inr (A ! i ! j)"
  using assms by (simp add: getitem2_def getitem_nat_ok)

lemma u_ln_of_returns:
  assumes "u \<noteq> []" and "\<forall>c\<in>set u. length c = 1"
    and "mix_u mixture \<noteq> []" and "\<forall>x\<in>set (mix_u mixture). r < length x"
    and "length (concat (map (\<lambda>c. c ! 0) u)) = length (concat (map (\<lambda>x. x ! r) (mix_u mixture)))"
  shows "u_ln_of mixture u (int r)
           = Inr [concat (map (\<lambda>c. c ! 0) u), concat (map (\<lambda>x. x ! r) (mix_u mixture))]"
proof -
  have hu: "hstack u = Inr (map (\<lambda>r. concat (map (\<lambda>c. c ! r) u)) [0..<1])"
    using assms(1,2) by (rule hstack_same_rows)
  have rows: "mapE (\<lambda>x. getitem x (int r)) (mix_u mixture) = Inr (map (\<lambda>x. x ! r) (mix_u mixture))"
    by (rule mapE_all_Inr) (simp add: getitem_nat_ok assms(4))
  have h1: "hstack1 (map (\<lambda>x. x ! r) (mix_u mixture)) = Inr (concat (map (\<lambda>x. x ! r) (mix_u mixture)))"
    using assms(3) by (simp add: hstack1_def)
  show ?thesis
    unfolding u_ln_of_def hu rows h1 bindE_Inr
    using assms(5) by (simp add: stack2_def)
qed

lemma reweight_estimator_error:
  assumes "u_ln_of mixture u ref = Inr u_ln" and "hstack y = Inr A_n"
    and "self_MBAR self = Some mb"
    and "computeExpectationsInner mb A_n u_ln (smap_of (length A_n)) = Inl e"
  shows "reweight self mixture u y ref = Inl e"
  unfolding reweight_def Let_def by (simp add: assms)

lemma reweight_zero:
  assumes "u_ln_of mixture u ref = Inr u_ln" and "hstack y = Inr []"
    and "self_MBAR self = Some mb"
    and "computeExpectationsInner mb [] u_ln (smap_of 0) = Inr res"
    and "well_shaped 0 res"
  shows "reweight self mixture u y ref
           = Inr ([res_f res ! 0 - res_f res ! 1],
                  [[res_Theta res ! 0 ! 0 + res_Theta res ! 1 ! 1 - 2 * res_Theta res ! 0 ! 1]])"
proof -
  have sh: "2 \<le> length (res_f res)" "2 \<le> length (res_Theta res)"
    "2 \<le> length (res_Theta res ! 0)" "2 \<le> length (res_Theta res ! 1)"
    using assms(5) by (simp_all add: well_shaped_def)
  have lf: "0 < length (res_f res)" "1 < length (res_f res)"
    using sh(1) by auto
  have lt: "0 < length (res_Theta res)" "1 < length (res_Theta res)"
    "0 < length (res_Theta res ! 0)" "1 < length (res_Theta res ! 0)"
    "1 < length (res_Theta res ! 1)"
    using sh(2,3,4) by auto
  have f: "getitem (res_f res) 0 = Inr (res_f res ! 0)" "getitem (res_f res) 1 = Inr (res_f res ! 1)"
    using lf by (simp_all add: getitem_0 getitem_1)
  have t: "getitem2 (res_Theta res) 0 0 = Inr (res_Theta res ! 0 ! 0)"
    "getitem2 (res_Theta res) 1 1 = Inr (res_Theta res ! 1 ! 1)"
    "getitem2 (res_Theta res) 0 1 = Inr (res_Theta res ! 0 ! 1)"
    using lt by (simp_all add: getitem2_def getitem_0 getitem_1)
  show ?thesis
    unfolding reweight_def Let_def by (simp add: assms(1-4) f t)
qed

lemma reweight_pos:
  assumes "u_ln_of mixture u ref = Inr u_ln" and "hstack y = Inr A_n"
    and "self_MBAR self = Some mb"
    and "computeExpectationsInner mb A_n u_ln (smap_of (length A_n)) = Inr res"
    and "0 < length A_n"
    and "well_shaped (length A_n) res"
  shows "\<exists>cov. reweight self mixture u y ref
             = Inr ((res_f res ! 0 - res_f res ! length A_n) # take (length A_n) (res_observables res), cov) \<and>
           length cov = length A_n + 1 \<and>
           (\<forall>a<length A_n + 1. length (cov ! a) = length A_n + 1 \<and>
              (\<forall>b<length A_n + 1. cov ! a ! b =
                 (\<Sum>p<2 * (length A_n + 1). \<Sum>q<2 * (length A_n + 1).
                    jacobian (length A_n) (res_observables res) (res_Amin res) p a
                    * res_Theta res ! p ! q
                    * jacobian (length A_n) (res_observables res) (res_Amin res) q b)))"
proof -
  let ?n = "length A_n"
  let ?yu = "take ?n (res_observables res)"
  let ?am = "take ?n (res_Amin res)"
  let ?delta = "map2 (-) ?yu ?am"
  have sh: "?n < length (res_f res)" "?n \<le> length (res_observables res)"
    "?n \<le> length (res_Amin res)" "length (res_Theta res) = 2 * (?n + 1)"
    "\<forall>row \<in> set (res_Theta res). length row = 2 * (?n + 1)"
    using assms(5,6) by (simp_all add: well_shaped_def)
  have "0 < length (res_f res)" using sh(1) by auto
  then have f0: "getitem (res_f res) 0 = Inr (res_f res ! 0)"
    by (rule getitem_0)
  have fn: "getitem (res_f res) (int ?n) = Inr (res_f res ! ?n)"
    using sh(1) by (rule getitem_nat_ok)
  have bc: "broadcast2 (-) ?yu ?am = Inr ?delta"
    using sh(2,3) by (simp add: broadcast2_def)
  have ld: "?n \<le> length ?delta" using sh(2,3) by simp
  have dn: "\<And>i. i < ?n \<Longrightarrow> ?delta ! i = res_observables res ! i - res_Amin res ! i"
    using sh(2,3) by simp
  from gradient_entries [OF ld assms(5)]
  obtain G1 G2 G where
    s1: "setitem2 (zeros (2 * (?n + 1)) (?n + 1)) (?n + 1) 0 (- 1) = Inr G1"
    and s2: "setitem2 G1 (2 * ?n + 1) 0 1 = Inr G2"
    and fg: "fill_G ?n ?delta [0..<?n] G2 = Inr G"
    and lG: "length G = 2 * (?n + 1)" and shG: "\<forall>row\<in>set G. length row = ?n + 1"
    and eG: "\<forall>r<2 * (?n + 1). \<forall>c<?n + 1. G ! r ! c =
              (if c = 0 then (if r = ?n + 1 then - 1 else if r = 2 * ?n + 1 then 1 else 0)
               else if r = c - 1 then ?delta ! (c - 1)
               else if r = ?n + c then - ?delta ! (c - 1)
               else 0)"
    by blast
  have jac: "\<And>r c. r < 2 * (?n + 1) \<Longrightarrow> c < ?n + 1 \<Longrightarrow>
      G ! r ! c = jacobian ?n (res_observables res) (res_Amin res) r c"
  proof -
    fix r c assume r: "r < 2 * (?n + 1)" and c: "c < ?n + 1"
    show "G ! r ! c = jacobian ?n (res_observables res) (res_Amin res) r c"
    proof (cases c)
      case 0
      then show ?thesis using eG r c by (simp add: jacobian_def)
    next
      case (Suc c')
      then have "c' < ?n" using c by simp
      then have "?delta ! c' = res_observables res ! c' - res_Amin res ! c'" by (rule dn)
      then show ?thesis using eG r c Suc by (simp add: jacobian_def)
    qed
  qed
  have pos: "0 < 2 * (?n + 1)" by simp
  have ne: "(?n = 0) = False" using assms(5) by simp
  from multi_dot3_entries [OF lG pos shG sh(4,5)]
  obtain cov where md: "multi_dot3 (transpose_m G) (res_Theta res) G = Inr cov"
    and lc: "length cov = ?n + 1"
    and ec: "\<forall>a<?n + 1. length (cov ! a) = ?n + 1 \<and>
              (\<forall>b<?n + 1. cov ! a ! b =
                 (\<Sum>p<2 * (?n + 1). \<Sum>q<2 * (?n + 1). G ! p ! a * res_Theta res ! p ! q * G ! q ! b))"
    by blast
  have rw: "reweight self mixture u y ref = Inr ((res_f res ! 0 - res_f res ! ?n) # ?yu, cov)"
    unfolding reweight_def Let_def
    by (simp only: assms(1-4) bindE_Inr option.case ne if_False f0 fn s1 s2 bc fg md
        append_Cons append_Nil)
  have "\<forall>a<?n + 1. length (cov ! a) = ?n + 1 \<and>
              (\<forall>b<?n + 1. cov ! a ! b =
                 (\<Sum>p<2 * (?n + 1). \<Sum>q<2 * (?n + 1).
                    jacobian ?n (res_observables res) (res_Amin res) p a
                    * res_Theta res ! p ! q
                    * jacobian ?n (res_observables res) (res_Amin res) q b))"
  proof (intro allI impI conjI)
    fix a assume a: "a < ?n + 1"
    show "length (cov ! a) = ?n + 1" using ec a by simp
    fix b assume b: "b < ?n + 1"
    have "cov ! a ! b = (\<Sum>p<2 * (?n + 1). \<Sum>q<2 * (?n + 1). G ! p ! a * res_Theta res ! p ! q * G ! q ! b)"
      using ec a b by simp
    also have "\<dots> = (\<Sum>p<2 * (?n + 1). \<Sum>q<2 * (?n + 1).
                    jacobian ?n (res_observables res) (res_Amin res) p a
                    * res_Theta res ! p ! q
                    * jacobian ?n (res_observables res) (res_Amin res) q b)"
      using a b by (intro sum.cong refl) (simp add: jac)
    finally show "cov ! a ! b = (\<Sum>p<2 * (?n + 1). \<Sum>q<2 * (?n + 1).
                    jacobian ?n (res_observables res) (res_Amin res) p a
                    * res_Theta res ! p ! q
                    * jacobian ?n (res_observables res) (res_Amin res) q b)" .
  qed
  with rw lc show ?thesis by blast
qed

lemma bindE_eq_Inl: "bindE m k = Inl e \<longleftrightarrow> m = Inl e \<or> (\<exists>x. m = Inr x \<and> k x = Inl e)"
  by (cases m) simp_all

lemma getitem_err: "getitem xs i = Inl e \<Longrightarrow> e = IndexError"
  by (simp add: getitem_def Let_def split: if_splits)

lemma getitem2_err: "getitem2 A i j = Inl e \<Longrightarrow> e = IndexError"
  by (auto simp: getitem2_def bindE_eq_Inl dest: getitem_err)

lemma setitem2_err: "setitem2 A i j v = Inl e \<Longrightarrow> e = IndexError"
  by (simp add: setitem2_def split: if_splits)

lemma broadcast2_err: "broadcast2 g xs ys = Inl e \<Longrightarrow> e = ValueError"
  by (simp add: broadcast2_def split: if_splits)

lemma matmul_err: "matmul A B = Inl e \<Longrightarrow> e = ValueError"
  by (simp add: matmul_def split: if_splits)

lemma multi_dot3_err: "multi_dot3 A B C = Inl e \<Longrightarrow> e = ValueError"
  by (auto simp: multi_dot3_def bindE_eq_Inl dest: matmul_err)

lemma fill_G_err: "fill_G n delta is G = Inl e \<Longrightarrow> e = IndexError"
proof (induction "is" arbitrary: G)
  case Nil
  then show ?case by simp
next
  case (Cons i rest)
  from Cons.prems show ?case
    by (auto simp: bindE_eq_Inl dest: getitem_err setitem2_err Cons.IH)
qed

lemma reweight_own_errors:
  assumes "u_ln_of mixture u ref = Inr u_ln" and "hstack y = Inr A_n"
    and "self_MBAR self = Some mb"
    and "computeExpectationsInner mb A_n u_ln (smap_of (length A_n)) = Inr res"
    and "reweight self mixture u y ref = Inl e"
  shows "e = IndexError \<or> e = ValueError"
proof (cases "length A_n = 0")
  case True
  with assms have "bindE (getitem (res_f res) 0) (\<lambda>f0.
       bindE (getitem (res_f res) 1) (\<lambda>f1.
       bindE (getitem2 (res_Theta res) 0 0) (\<lambda>t00.
       bindE (getitem2 (res_Theta res) 1 1) (\<lambda>t11.
       bindE (getitem2 (res_Theta res) 0 1) (\<lambda>t01.
       Inr ([f0 - f1], [[t00 + t11 - 2 * t01]])))))) = (Inl e :: error + vec \<times> mat)"
    by (simp add: reweight_def Let_def)
  then show ?thesis
    by (auto simp: bindE_eq_Inl dest: getitem_err getitem2_err)
next
  case False
  let ?n = "length A_n"
  from False assms have "bindE (getitem (res_f res) 0) (\<lambda>f0.
       bindE (getitem (res_f res) (int ?n)) (\<lambda>fn.
       bindE (setitem2 (zeros (2 * (?n + 1)) (?n + 1)) (?n + 1) 0 (- 1)) (\<lambda>G1.
       bindE (setitem2 G1 (2 * ?n + 1) 0 1) (\<lambda>G2.
       bindE (broadcast2 (-) (take ?n (res_observables res)) (take ?n (res_Amin res))) (\<lambda>delta.
       bindE (fill_G ?n delta [0..<?n] G2) (\<lambda>G.
       bindE (multi_dot3 (transpose_m G) (res_Theta res) G) (\<lambda>cov.
       Inr ([f0 - fn] @ take ?n (res_observables res), cov)))))))) = (Inl e :: error + vec \<times> mat)"
    by (simp add: reweight_def Let_def)
  then show ?thesis
    unfolding bindE_eq_Inl
    by (elim disjE exE conjE)
       (auto dest: getitem_err setitem2_err broadcast2_err fill_G_err multi_dot3_err)
qed

subsection \<open>Reweighting on the concrete mixture\<close>

lemma ex_u_ln: "u_ln_of ex_fitted ex_u 0 = Inr [[0, 0, 0], [0, 0, 0]]"
  by (simp add: u_ln_of_def ex_fitted_def ex_mixture_def ex_u_def hstack_def hstack1_def
      stack2_def getitem_def)

lemma ex_reweight0:
  "reweight ex_self_fitted ex_fitted ex_u ex_y0 0 = Inr ([0], [[0]])"
  unfolding reweight_def Let_def ex_u_ln bindE_Inr
  by (simp add: ex_y0_def hstack_def ex_self_fitted_def ex_mb_def ex_inner_def smap_of_def
      getitem_def getitem2_def)

lemma ex_gradient:
  "fill_G 1 [1] [0..<1] [[0, 0], [0, 0], [- 1, 0], [1, 0]] = Inr [[0, 1], [0, 0], [- 1, - 1], [1, 0]]"
  by (simp add: getitem_def setitem2_def)

lemma ex_multi_dot:
  "multi_dot3 (transpose_m [[0, 1], [0, 0], [- 1, - 1], [1, 0]])
     [[2, 1, 0, 0], [1, 2, 0, 0], [0, 0, 2, 1], [0, 0, 1, 2]]
     [[0, 1], [0, 0], [- 1, - 1], [1, 0]] = Inr [[2, 1], [1, 4]]"
  by (simp add: multi_dot3_def matmul_def transpose_m_def ncols_def upt_rec)

lemma ex_reweight1:
  "reweight ex_self_fitted ex_fitted ex_u ex_y1 0 = Inr ([0, 2], [[2, 1], [1, 4]])"
proof -
  have hy: "hstack ex_y1 = Inr [[1, 2, 3]]"
    by (simp add: ex_y1_def hstack_def)
  have est: "computeExpectationsInner ex_mb [[1, 2, 3]] [[0, 0, 0], [0, 0, 0]] (smap_of 1)
      = Inr \<lparr>res_f = [0, 0], res_observables = [2, 2], res_Amin = [1, 1],
              res_Theta = [[2, 1, 0, 0], [1, 2, 0, 0], [0, 0, 2, 1], [0, 0, 1, 2]]\<rparr>"
    by (simp add: ex_mb_def ex_inner_def smap_of_def ncols_def)
  have z: "setitem2 (zeros (2 * (1 + 1)) (1 + 1)) (1 + 1) 0 (- 1) = Inr [[0, 0], [0, 0], [- 1, 0], [0, 0]]"
    by (simp add: zeros_def setitem2_def eval_nat_numeral)
  have z2: "setitem2 [[0, 0], [0, 0], [- 1, 0], [0, 0]] (2 * 1 + 1) 0 1 = Inr [[0, 0], [0, 0], [- 1, 0], [1, 0]]"
    by (simp add: setitem2_def eval_nat_numeral)
  have bc: "broadcast2 (-) (take 1 [2, 2]) (take 1 [1, 1]) = Inr [1]"
    by (simp add: broadcast2_def)
  have f: "getitem [0, 0 :: real] 0 = Inr 0" "getitem [0, 0 :: real] (int 1) = Inr 0"
    by (simp_all add: getitem_def)
  have s: "self_MBAR ex_self_fitted = Some ex_mb"
    by (simp add: ex_self_fitted_def)
  have l: "length [[1, 2, 3 :: real]] = 1" by simp
  show ?thesis
    unfolding reweight_def Let_def ex_u_ln hy bindE_Inr s option.case l est
    by (simp only: results.simps f z z2 bc ex_gradient ex_multi_dot bindE_Inr
        One_nat_def [symmetric] if_False one_neq_zero append_Cons append_Nil diff_self)
       simp
qed

lemma ex_reweight_long:
  "reweight ex_self_fitted ex_fitted ex_u ex_y_long 0 = Inl (EstimatorError ''ValueError'')"
  unfolding reweight_def Let_def ex_u_ln bindE_Inr
  by (simp add: ex_y_long_def hstack_def ex_self_fitted_def ex_mb_def ex_inner_def ncols_def)

subsection \<open>Reweighting: values, covariance and failures\<close>

text \<open>
  Claim C2. A query without observables is one whose observable blocks have no row.
  When the blocks of the target potential have one row each, the reference row exists
  in every block of the mixture and both rows have one length, \<^verbatim>\<open>__reweight__\<close> hands
  the two rows and the state map \<^verbatim>\<open>np.arange(2)\<close> to the estimator, and for results of
  at least two states it returns the vector \<open>[f[0] - f[1]]\<close>, the free energy of the
  target minus that of the reference, and the matrix
  \<open>[[Theta[0][0] + Theta[1][1] - 2 Theta[0][1]]]\<close>.
\<close>

theorem reweight_no_observables:
  assumes "u \<noteq> []" and "\<forall>c\<in>set u. length c = 1"
    and "mix_u mixture \<noteq> []" and "\<forall>x\<in>set (mix_u mixture). r < length x"
    and "length (concat (map (\<lambda>c. c ! 0) u)) = length (concat (map (\<lambda>x. x ! r) (mix_u mixture)))"
    and "y \<noteq> []" and "\<forall>b\<in>set y. b = []"
    and "self_MBAR self = Some mb"
    and "computeExpectationsInner mb []
           [concat (map (\<lambda>c. c ! 0) u), concat (map (\<lambda>x. x ! r) (mix_u mixture))] (Map1 [0, 1])
         = Inr res"
    and "well_shaped 0 res"
  shows "reweight self mixture u y (int r)
           = Inr ([res_f res ! 0 - res_f res ! 1],
                  [[res_Theta res ! 0 ! 0 + res_Theta res ! 1 ! 1 - 2 * res_Theta res ! 0 ! 1]])"
proof -
  have ul: "u_ln_of mixture u (int r)
      = Inr [concat (map (\<lambda>c. c ! 0) u), concat (map (\<lambda>x. x ! r) (mix_u mixture))]"
    using assms(1-5) by (rule u_ln_of_returns)
  have "\<forall>b\<in>set y. length b = 0" using assms(7) by simp
  with assms(6) have "hstack y = Inr (map (\<lambda>r. concat (map (\<lambda>c. c ! r) y)) [0..<0])"
    by (rule hstack_same_rows)
  then have hy: "hstack y = Inr []" by simp
  have sm: "smap_of 0 = Map1 [0, 1]"
    by (simp add: smap_of_def upt_rec)
  have est: "computeExpectationsInner mb []
           [concat (map (\<lambda>c. c ! 0) u), concat (map (\<lambda>x. x ! r) (mix_u mixture))] (smap_of 0)
         = Inr res"
    unfolding sm by (rule assms(9))
  show ?thesis
    using ul hy assms(8) est assms(10) by (rule reweight_zero)
qed

theorem reweight_no_observables_witness:
  "self_MBAR ex_self_fitted = Some ex_mb \<and> well_shaped 0 \<lparr>res_f = [0, 0], res_observables = [], res_Amin = [],
                       res_Theta = [[0, 0], [0, 0]]\<rparr> \<and>
   reweight ex_self_fitted ex_fitted ex_u ex_y0 (int 0) = Inr ([0], [[0]])"
proof -
  let ?res = "\<lparr>res_f = [0, 0], res_observables = [], res_Amin = [], res_Theta = [[0, 0], [0, 0 :: real]]\<rparr>"
  have h: "ex_u \<noteq> []" "\<forall>c\<in>set ex_u. length c = 1"
    "mix_u ex_fitted \<noteq> []" "\<forall>x\<in>set (mix_u ex_fitted). 0 < length x"
    "length (concat (map (\<lambda>c. c ! 0) ex_u)) = length (concat (map (\<lambda>x. x ! 0) (mix_u ex_fitted)))"
    "ex_y0 \<noteq> []" "\<forall>b\<in>set ex_y0. b = []"
    "self_MBAR ex_self_fitted = Some ex_mb"
    by (simp_all add: ex_u_def ex_fitted_def ex_mixture_def ex_y0_def ex_self_fitted_def)
  have est: "computeExpectationsInner ex_mb []
           [concat (map (\<lambda>c. c ! 0) ex_u), concat (map (\<lambda>x. x ! 0) (mix_u ex_fitted))] (Map1 [0, 1])
         = Inr ?res"
    by (simp add: ex_mb_def ex_inner_def)
  have ws: "well_shaped 0 ?res"
    by (simp add: well_shaped_def)
  show ?thesis
    using reweight_no_observables [OF h est ws] h(8) ws by simp
qed

text \<open>
  Claim C3. For a query with \<open>n \<ge> 1\<close> observables and results of the estimator with
  \<open>n + 1\<close> free energies, \<open>n\<close> observables and minima and a covariance \<open>Theta\<close> of
  size \<open>2 (n + 1)\<close>, \<^verbatim>\<open>__reweight__\<close> returns the values
  \<open>f[0] - f[n], y\<^sub>0, \<dots>, y\<^sub>n\<^sub>-\<^sub>1\<close> and a matrix of size \<open>n + 1\<close> whose entry
  \<open>(a, b)\<close> is \<open>\<Sum>p q. G[p][a] * Theta[p][q] * G[q][b]\<close>, the product
  \<open>G\<^sup>T Theta G\<close>, where \<open>G\<close> is the Jacobian as the specification states it.
\<close>

theorem reweight_covariance:
  assumes "u \<noteq> []" and "\<forall>c\<in>set u. length c = 1"
    and "mix_u mixture \<noteq> []" and "\<forall>x\<in>set (mix_u mixture). r < length x"
    and "length (concat (map (\<lambda>c. c ! 0) u)) = length (concat (map (\<lambda>x. x ! r) (mix_u mixture)))"
    and "y \<noteq> []" and "\<forall>b\<in>set y. length b = n" and "0 < n"
    and "self_MBAR self = Some mb"
    and "computeExpectationsInner mb (map (\<lambda>i. concat (map (\<lambda>b. b ! i) y)) [0..<n])
           [concat (map (\<lambda>c. c ! 0) u), concat (map (\<lambda>x. x ! r) (mix_u mixture))] (smap_of n)
         = Inr res"
    and "well_shaped n res"
  shows "\<exists>cov. reweight self mixture u y (int r)
             = Inr ((res_f res ! 0 - res_f res ! n) # take n (res_observables res), cov) \<and>
           length cov = n + 1 \<and>
           (\<forall>a<n + 1. length (cov ! a) = n + 1 \<and>
              (\<forall>b<n + 1. cov ! a ! b =
                 (\<Sum>p<2 * (n + 1). \<Sum>q<2 * (n + 1).
                    jacobian n (res_observables res) (res_Amin res) p a
                    * res_Theta res ! p ! q
                    * jacobian n (res_observables res) (res_Amin res) q b)))"
proof -
  let ?A = "map (\<lambda>i. concat (map (\<lambda>b. b ! i) y)) [0..<n]"
  have ul: "u_ln_of mixture u (int r)
      = Inr [concat (map (\<lambda>c. c ! 0) u), concat (map (\<lambda>x. x ! r) (mix_u mixture))]"
    using assms(1-5) by (rule u_ln_of_returns)
  have hy: "hstack y = Inr ?A"
    using assms(6,7) by (rule hstack_same_rows)
  have l: "length ?A = n" by simp
  have est: "computeExpectationsInner mb ?A
           [concat (map (\<lambda>c. c ! 0) u), concat (map (\<lambda>x. x ! r) (mix_u mixture))]
           (smap_of (length ?A)) = Inr res"
    unfolding l by (rule assms(10))
  have pos: "0 < length ?A" unfolding l by (rule assms(8))
  have ws: "well_shaped (length ?A) res" unfolding l by (rule assms(11))
  show ?thesis
    using reweight_pos [OF ul hy assms(9) est pos ws] unfolding l .
qed

theorem reweight_covariance_witness:
  "self_MBAR ex_self_fitted = Some ex_mb \<and>
   reweight ex_self_fitted ex_fitted ex_u ex_y1 (int 0) = Inr ([0, 2], [[2, 1], [1, 4]])"
proof -
  let ?res = "\<lparr>res_f = [0, 0], res_observables = [2, 2], res_Amin = [1, 1],
              res_Theta = [[2, 1, 0, 0], [1, 2, 0, 0], [0, 0, 2, 1], [0, 0, 1, 2 :: real]]\<rparr>"
  have h: "ex_u \<noteq> []" "\<forall>c\<in>set ex_u. length c = 1"
    "mix_u ex_fitted \<noteq> []" "\<forall>x\<in>set (mix_u ex_fitted). 0 < length x"
    "length (concat (map (\<lambda>c. c ! 0) ex_u)) = length (concat (map (\<lambda>x. x ! 0) (mix_u ex_fitted)))"
    "ex_y1 \<noteq> []" "\<forall>b\<in>set ex_y1. length b = 1" "(0::nat) < 1"
    "self_MBAR ex_self_fitted = Some ex_mb"
    by (simp_all add: ex_u_def ex_fitted_def ex_mixture_def ex_y1_def ex_self_fitted_def)
  have est: "computeExpectationsInner ex_mb (map (\<lambda>i. concat (map (\<lambda>b. b ! i) ex_y1)) [0..<1])
           [concat (map (\<lambda>c. c ! 0) ex_u), concat (map (\<lambda>x. x ! 0) (mix_u ex_fitted))] (smap_of 1)
         = Inr ?res"
    by (simp add: ex_mb_def ex_inner_def ex_y1_def ex_u_def ex_fitted_def ex_mixture_def
        smap_of_def ncols_def)
  have ws: "well_shaped 1 ?res"
    by (simp add: well_shaped_def)
  show ?thesis
    using reweight_covariance [OF h est ws] h(9) ex_reweight1 by simp
qed

text \<open>
  Claim C9 says that \<^verbatim>\<open>__reweight__\<close> fails with \<open>DimensionMismatchError\<close>, before any
  computation, when an observable has not one value per pooled sample. On the concrete
  mixture, which has three samples, an observable with four values is stacked and handed
  to the estimator, and the failure is the estimator's exception.
\<close>

theorem reweight_length_not_rejected:
  "hstack ex_y_long = Inr [[1, 2, 2, 3]] \<and> sum_list (mix_n ex_fitted) = 3 \<and>
   u_ln_of ex_fitted ex_u 0 = Inr [[0, 0, 0], [0, 0, 0]] \<and>
   reweight ex_self_fitted ex_fitted ex_u ex_y_long 0 = Inl (EstimatorError ''ValueError'') \<and>
   reweight ex_self_fitted ex_fitted ex_u ex_y_long 0 \<noteq> Inl DimensionMismatchError"
  by (simp add: ex_reweight_long ex_u_ln)
     (simp add: ex_y_long_def hstack_def ex_fitted_def ex_mixture_def)

text \<open>
  Claim C9, amended. \<^verbatim>\<open>__reweight__\<close> has no check of the lengths of the observables
  and no \<open>DimensionMismatchError\<close>: whatever these lengths, a query whose blocks can be
  stacked is handed to the estimator; if the estimator raises, \<^verbatim>\<open>__reweight__\<close> fails
  with the estimator's exception, and if the estimator returns, \<^verbatim>\<open>__reweight__\<close> does not
  fail with \<open>DimensionMismatchError\<close>, and it returns when the results have the shapes
  that its indexing needs.
\<close>

theorem reweight_failure_modes:
  assumes "u \<noteq> []" and "\<forall>c\<in>set u. length c = 1"
    and "mix_u mixture \<noteq> []" and "\<forall>x\<in>set (mix_u mixture). r < length x"
    and "length (concat (map (\<lambda>c. c ! 0) u)) = length (concat (map (\<lambda>x. x ! r) (mix_u mixture)))"
    and "y \<noteq> []" and "\<forall>b\<in>set y. length b = n"
    and "self_MBAR self = Some mb"
  shows "(\<forall>e. computeExpectationsInner mb (map (\<lambda>i. concat (map (\<lambda>b. b ! i) y)) [0..<n])
                [concat (map (\<lambda>c. c ! 0) u), concat (map (\<lambda>x. x ! r) (mix_u mixture))] (smap_of n)
              = Inl e \<longrightarrow> reweight self mixture u y (int r) = Inl e) \<and>
         (\<forall>res. computeExpectationsInner mb (map (\<lambda>i. concat (map (\<lambda>b. b ! i) y)) [0..<n])
                [concat (map (\<lambda>c. c ! 0) u), concat (map (\<lambda>x. x ! r) (mix_u mixture))] (smap_of n)
              = Inr res \<longrightarrow>
              reweight self mixture u y (int r) \<noteq> Inl DimensionMismatchError \<and>
              (well_shaped n res \<longrightarrow> (\<exists>v. reweight self mixture u y (int r) = Inr v)))"
proof -
  let ?A = "map (\<lambda>i. concat (map (\<lambda>b. b ! i) y)) [0..<n]"
  let ?ul = "[concat (map (\<lambda>c. c ! 0) u), concat (map (\<lambda>x. x ! r) (mix_u mixture))]"
  have ul: "u_ln_of mixture u (int r) = Inr ?ul"
    using assms(1-5) by (rule u_ln_of_returns)
  have hy: "hstack y = Inr ?A"
    using assms(6,7) by (rule hstack_same_rows)
  have l: "length ?A = n" by simp
  have a: "reweight self mixture u y (int r) = Inl e"
    if "computeExpectationsInner mb ?A ?ul (smap_of n) = Inl e" for e
  proof -
    from that have "computeExpectationsInner mb ?A ?ul (smap_of (length ?A)) = Inl e"
      unfolding l .
    with ul hy assms(8) show ?thesis by (rule reweight_estimator_error)
  qed
  have b: "reweight self mixture u y (int r) \<noteq> Inl DimensionMismatchError"
    if "computeExpectationsInner mb ?A ?ul (smap_of n) = Inr res" for res
  proof
    assume f: "reweight self mixture u y (int r) = Inl DimensionMismatchError"
    from that have "computeExpectationsInner mb ?A ?ul (smap_of (length ?A)) = Inr res"
      unfolding l .
    from reweight_own_errors [OF ul hy assms(8) this f] show False by simp
  qed
  have c: "\<exists>v. reweight self mixture u y (int r) = Inr v"
    if "computeExpectationsInner mb ?A ?ul (smap_of n) = Inr res" and "well_shaped n res" for res
  proof (cases "n = 0")
    case True
    with that hy have "hstack y = Inr []" "computeExpectationsInner mb [] ?ul (smap_of 0) = Inr res"
      "well_shaped 0 res" by simp_all
    with ul assms(8) show ?thesis
      using reweight_zero by blast
  next
    case False
    with that l have "computeExpectationsInner mb ?A ?ul (smap_of (length ?A)) = Inr res"
      "0 < length ?A" "well_shaped (length ?A) res" by simp_all
    from reweight_pos [OF ul hy assms(8) this] show ?thesis by blast
  qed
  from a b c show ?thesis by blast
qed

theorem reweight_failure_modes_witness:
  "self_MBAR ex_self_fitted = Some ex_mb \<and>
   computeExpectationsInner ex_mb [[1, 2, 2, 3]] [[0, 0, 0], [0, 0, 0]] (smap_of 1)
     = Inl (EstimatorError ''ValueError'') \<and>
   reweight ex_self_fitted ex_fitted ex_u ex_y_long (int 0) = Inl (EstimatorError ''ValueError'')"
proof -
  have h: "ex_u \<noteq> []" "\<forall>c\<in>set ex_u. length c = 1"
    "mix_u ex_fitted \<noteq> []" "\<forall>x\<in>set (mix_u ex_fitted). 0 < length x"
    "length (concat (map (\<lambda>c. c ! 0) ex_u)) = length (concat (map (\<lambda>x. x ! 0) (mix_u ex_fitted)))"
    "ex_y_long \<noteq> []" "\<forall>b\<in>set ex_y_long. length b = 1"
    "self_MBAR ex_self_fitted = Some ex_mb"
    by (simp_all add: ex_u_def ex_fitted_def ex_mixture_def ex_y_long_def ex_self_fitted_def)
  have est: "computeExpectationsInner ex_mb [[1, 2, 2, 3]] [[0, 0, 0], [0, 0, 0]] (smap_of 1)
     = Inl (EstimatorError ''ValueError'')"
    by (simp add: ex_mb_def ex_inner_def ncols_def)
  have est': "computeExpectationsInner ex_mb (map (\<lambda>i. concat (map (\<lambda>b. b ! i) ex_y_long)) [0..<1])
           [concat (map (\<lambda>c. c ! 0) ex_u), concat (map (\<lambda>x. x ! 0) (mix_u ex_fitted))] (smap_of 1)
         = Inl (EstimatorError ''ValueError'')"
    by (simp add: ex_mb_def ex_inner_def ex_y_long_def ex_u_def ex_fitted_def ex_mixture_def ncols_def)
  show ?thesis
    using reweight_failure_modes [OF h] est est' h(8) by simp
qed

end
